theory Spec2Isabelle
  imports Main
begin

section \<open>Data model\<close>

text \<open>
  The component under study is the React component \<open>App\<close> of the chat client. Its
  hooks (\<open>useState\<close>, \<open>useRef\<close>) become the fields of one record, its event handlers
  become functions from state to state, and every command it issues to a collaborator
  (socket hook, Firestore, Firebase auth) is appended to a trace kept in the state.
\<close>

text \<open>Instants are milliseconds; the source writes them as ISO strings of the clock.\<close>

type_synonym instant = nat

text \<open>
  A chat message: the properties of the JavaScript object that the component reads.
  A property that is absent (\<open>undefined\<close>) is \<open>None\<close>.
\<close>

record message =
  msg_id :: "string option"
  msg_sender :: "string option"
  msg_text :: "string option"
  msg_timestamp :: "instant option"
  msg_system :: bool
  msg_isPrivate :: bool

text \<open>A Firestore document of a snapshot: \<open>doc.id\<close> and \<open>doc.data()\<close>.\<close>

record doc =
  doc_id :: string
  doc_data :: message

datatype direction = Asc | Desc

text \<open>The query handed to \<open>onSnapshot\<close>: collection path, \<open>orderBy\<close>, \<open>limit\<close>.\<close>

record query =
  q_path :: string
  q_orderBy :: "string \<times> direction"
  q_limit :: nat

text \<open>Commands issued to the collaborators, in the order the code issues them.\<close>

datatype command =
    SetTyping bool
  | SendMessage string
  | Connect string
  | AddDoc string message
  | Subscribe query
  | Unsubscribe
  | SignInAnonymously
  | SignInWithCustomToken string

datatype firestore = Firestore

text \<open>A line of the console: \<open>console.warn\<close> or \<open>console.error\<close>.\<close>

datatype log_entry = Warn string | Error string

type_synonym timer_id = nat

text \<open>
  The module-level constants of the source: \<open>appId\<close>, \<open>IS_DUMMY_KEY\<close>,
  \<open>initialAuthToken\<close>; whether \<open>initializeApp\<close> throws; and the random suffix of the
  local development user id.
\<close>

record config =
  appId :: string
  IS_DUMMY_KEY :: bool
  initialAuthToken :: "string option"
  init_throws :: bool
  random_suffix :: string

text \<open>
  The state of the component. The first group are the \<open>useState\<close> values and the values
  of the socket hook, the second the refs, the third the runtime the component runs in:
  the clock, the table of pending timers (handle and due time), the next timer handle,
  whether the Firestore listener and the auth listener are registered, the commands
  issued so far (oldest first) and the console.
\<close>

record app =
  db :: "firestore option"
  userId :: "string option"
  isAuthReady :: bool
  username :: string
  input :: string
  persistentMessages :: "message list"
  liveMessages :: "message list"
  isConnected :: bool
  typingTimeoutRef :: "timer_id option"
  hasConnectedRef :: bool
  now :: instant
  timers :: "(timer_id \<times> instant) list"
  nextTimerId :: timer_id
  subscribed :: bool
  authListener :: bool
  trace :: "command list"
  console :: "log_entry list"

definition initial :: app where
  "initial =
     \<lparr>db = None, userId = None, isAuthReady = False, username = [], input = [],
      persistentMessages = [], liveMessages = [], isConnected = False,
      typingTimeoutRef = None, hasConnectedRef = False,
      now = 0, timers = [], nextTimerId = 1, subscribed = False, authListener = False,
      trace = [], console = []\<rparr>"

section \<open>Runtime primitives\<close>

definition emit :: "command \<Rightarrow> app \<Rightarrow> app" where
  "emit c s = s\<lparr>trace := trace s @ [c]\<rparr>"

definition console_warn :: "string \<Rightarrow> app \<Rightarrow> app" where
  "console_warn m s = s\<lparr>console := console s @ [Warn m]\<rparr>"

definition console_error :: "string \<Rightarrow> app \<Rightarrow> app" where
  "console_error m s = s\<lparr>console := console s @ [Error m]\<rparr>"

text \<open>
  \<open>setTimeout(cb, delay)\<close> registers a timer due \<open>delay\<close> ms from now and returns its
  handle. Handles are positive integers, so a handle is never falsy.
\<close>

definition setTimeout :: "nat \<Rightarrow> app \<Rightarrow> timer_id \<times> app" where
  "setTimeout delay s =
     (nextTimerId s,
      s\<lparr>timers := timers s @ [(nextTimerId s, now s + delay)],
        nextTimerId := Suc (nextTimerId s)\<rparr>)"

text \<open>\<open>clearTimeout(h)\<close> cancels the timer with handle \<open>h\<close>; \<open>clearTimeout(null)\<close> does nothing.\<close>

definition clearTimeout :: "timer_id option \<Rightarrow> app \<Rightarrow> app" where
  "clearTimeout h s =
     (case h of
        None \<Rightarrow> s
      | Some i \<Rightarrow> s\<lparr>timers := filter (\<lambda>(j, due). j \<noteq> i) (timers s)\<rparr>)"

text \<open>
  \<open>String.prototype.trim\<close>: strips white space and line terminators from both ends.
  Characters are 8-bit here, so the white space of the model is tab, line feed, vertical
  tab, form feed, carriage return, space and the no-break space.
\<close>

definition is_space :: "char \<Rightarrow> bool" where
  "is_space c = (of_char c \<in> {9, 10, 11, 12, 13, 32, 160 :: nat})"

definition trim :: "string \<Rightarrow> string" where
  "trim s = rev (dropWhile is_space (rev (dropWhile is_space s)))"

section \<open>The merged view\<close>

text \<open>\<open>const allMessages = [...persistentMessages, ...liveMessages]\<close>\<close>

definition allMessages :: "app \<Rightarrow> message list" where
  "allMessages s = persistentMessages s @ liveMessages s"

text \<open>
  The React key of a rendered message, \<open>key={msg.id || index}\<close>: the id when it is
  truthy (present and not the empty string), the index in \<open>allMessages\<close> otherwise.
\<close>

datatype key = KeyId string | KeyIndex nat

definition message_key :: "message \<Rightarrow> nat \<Rightarrow> key" where
  "message_key msg index =
     (case msg_id msg of
        None \<Rightarrow> KeyIndex index
      | Some i \<Rightarrow> if i = [] then KeyIndex index else KeyId i)"

definition keys :: "app \<Rightarrow> key list" where
  "keys s = map (\<lambda>(index, msg). message_key msg index) (enumerate 0 (allMessages s))"

section \<open>Firebase initialisation and auth\<close>

text \<open>
  The first \<open>useEffect\<close>. When \<open>initializeApp\<close> throws, the \<open>catch\<close> logs and nothing is
  set. With the dummy key a warning is logged and the auth state is faked at once. Otherwise the auth listener
  is registered and a sign-in is started; \<open>if (initialAuthToken)\<close> is true for a token
  that is present and not empty.
\<close>

definition init_effect :: "config \<Rightarrow> app \<Rightarrow> app" where
  "init_effect cfg s =
     (if init_throws cfg then console_error ''Firebase initialization failed:'' s
      else
        let s1 = s\<lparr>db := Some Firestore\<rparr> in
        if IS_DUMMY_KEY cfg then
          let s2 = console_warn ''Running with DUMMY_API_KEY.'' s1 in
          s2\<lparr>userId := Some (''local-dev-user-'' @ random_suffix cfg), isAuthReady := True\<rparr>
        else
          let s2 = s1\<lparr>authListener := True\<rparr> in
          (case initialAuthToken cfg of
             None \<Rightarrow> emit SignInAnonymously s2
           | Some tok \<Rightarrow>
               if tok = [] then emit SignInAnonymously s2
               else emit (SignInWithCustomToken tok) s2))"

text \<open>The callback given to \<open>onAuthStateChanged\<close>.\<close>

definition onAuthStateChanged_cb :: "string option \<Rightarrow> app \<Rightarrow> app" where
  "onAuthStateChanged_cb user s =
     (case user of
        Some uid \<Rightarrow> s\<lparr>userId := Some uid, isAuthReady := True\<rparr>
      | None \<Rightarrow> emit SignInAnonymously s)"

text \<open>\<open>signInWithCustomToken(...).catch(() => signInAnonymously(authInstance))\<close>\<close>

definition customToken_catch :: "app \<Rightarrow> app" where
  "customToken_catch s = emit SignInAnonymously s"

section \<open>Firestore listener\<close>

definition chatPath :: "config \<Rightarrow> string" where
  "chatPath cfg = ''/artifacts/'' @ appId cfg @ ''/public/data/global_chat_messages''"

definition chat_query :: "config \<Rightarrow> query" where
  "chat_query cfg =
     \<lparr>q_path = chatPath cfg, q_orderBy = (''timestamp'', Desc), q_limit = 50\<rparr>"

text \<open>\<open>doc => ({ ...doc.data(), id: doc.id })\<close>\<close>

definition doc_message :: "doc \<Rightarrow> message" where
  "doc_message d = (doc_data d)\<lparr>msg_id := Some (doc_id d)\<rparr>"

text \<open>The snapshot callback: map, reverse, \<open>setPersistentMessages\<close>.\<close>

definition onSnapshot_next :: "doc list \<Rightarrow> app \<Rightarrow> app" where
  "onSnapshot_next docs s =
     (let newMessages = rev (map doc_message docs)
      in s\<lparr>persistentMessages := newMessages\<rparr>)"

text \<open>The error callback: \<open>console.error\<close> only.\<close>

definition onSnapshot_error :: "string \<Rightarrow> app \<Rightarrow> app" where
  "onSnapshot_error err s =
     console_error (''Error fetching messages from Firestore:'' @ err) s"

text \<open>
  The store's side of the query, as the interface section of the specification gives it:
  the collection's documents newest first, cut at the query's limit.
\<close>

definition store_snapshot :: "query \<Rightarrow> doc list \<Rightarrow> doc list" where
  "store_snapshot q newest_first = take (q_limit q) newest_first"

text \<open>
  The second \<open>useEffect\<close>, with dependencies \<open>[isAuthReady, db, appId]\<close>. It is re-run
  when a dependency differs from the previous render: first the cleanup of the previous
  run (\<open>unsubscribe\<close>, when that run subscribed), then the body.
\<close>

definition firestore_listener_effect :: "config \<Rightarrow> app \<Rightarrow> app \<Rightarrow> app" where
  "firestore_listener_effect cfg prev s =
     (if isAuthReady prev = isAuthReady s \<and> db prev = db s then s
      else
        let s1 = (if subscribed s then (emit Unsubscribe s)\<lparr>subscribed := False\<rparr> else s)
        in if \<not> isAuthReady s1 \<or> db s1 = None then s1
           else (emit (Subscribe (chat_query cfg)) s1)\<lparr>subscribed := True\<rparr>)"

section \<open>Socket connection trigger\<close>

text \<open>
  The third \<open>useEffect\<close>, with dependencies \<open>[isAuthReady, username, connect]\<close>. The
  identity of \<open>connect\<close> belongs to the socket hook, so the body may run after any
  render; the model runs it after every handled event.
\<close>

definition socket_connection_effect :: "app \<Rightarrow> app" where
  "socket_connection_effect s =
     (if isAuthReady s \<and> username s \<noteq> [] \<and> \<not> hasConnectedRef s
      then emit (Connect (username s)) (s\<lparr>hasConnectedRef := True\<rparr>)
      else s)"

section \<open>Actions\<close>

text \<open>
  \<open>sendMessageToDb\<close> up to its \<open>await\<close>: nothing without a database, otherwise the
  \<open>addDoc\<close> call. The promise settles later, see \<open>addDoc_settled\<close>.
\<close>

definition sendMessageToDb :: "config \<Rightarrow> message \<Rightarrow> app \<Rightarrow> app" where
  "sendMessageToDb cfg msg s =
     (if db s = None then s else emit (AddDoc (chatPath cfg) msg) s)"

datatype outcome = Resolved | Rejected string

text \<open>
  The rest of \<open>sendMessageToDb\<close>: a rejection is caught and logged unless the dummy key
  is in use; no state is set.
\<close>

definition addDoc_settled :: "config \<Rightarrow> outcome \<Rightarrow> app \<Rightarrow> app" where
  "addDoc_settled cfg r s =
     (case r of
        Resolved \<Rightarrow> s
      | Rejected e \<Rightarrow>
          if \<not> IS_DUMMY_KEY cfg
          then console_error (''Error adding document to Firestore: '' @ e) s
          else s)"

definition handleSend :: "config \<Rightarrow> app \<Rightarrow> app" where
  "handleSend cfg s =
     (let text = trim (input s) in
      if text = [] \<or> username s = [] then s
      else
        let s1 = emit (SendMessage text) s;
            s2 = sendMessageToDb cfg
                   \<lparr>msg_id = None, msg_sender = Some (username s), msg_text = Some text,
                    msg_timestamp = Some (now s), msg_system = False,
                    msg_isPrivate = False\<rparr> s1;
            s3 = emit (SetTyping False) s2;
            s4 = clearTimeout (typingTimeoutRef s3) s3;
            s5 = s4\<lparr>typingTimeoutRef := None\<rparr>
        in s5\<lparr>input := []\<rparr>)"

text \<open>The callback that \<open>handleInputChange\<close> hands to \<open>setTimeout\<close>.\<close>

definition typing_timeout_cb :: "app \<Rightarrow> app" where
  "typing_timeout_cb s = (emit (SetTyping False) s)\<lparr>typingTimeoutRef := None\<rparr>"

definition handleInputChange :: "string \<Rightarrow> app \<Rightarrow> app" where
  "handleInputChange newText s =
     (let s1 = s\<lparr>input := newText\<rparr>;
          s2 = (if length newText > 0 \<and> typingTimeoutRef s1 = None
                then emit (SetTyping True) s1 else s1);
          s3 = clearTimeout (typingTimeoutRef s2) s2;
          (h, s4) = setTimeout 2000 s3
      in s4\<lparr>typingTimeoutRef := Some h\<rparr>)"

text \<open>The username prompt: \<open>const name = ....value.trim(); if (name) setUsername(name)\<close>.\<close>

definition username_submit :: "string \<Rightarrow> app \<Rightarrow> app" where
  "username_submit raw s =
     (let name = trim raw in if name \<noteq> [] then s\<lparr>username := name\<rparr> else s)"

section \<open>The socket hook\<close>

text \<open>
  Modelled from the spec: the hook \<open>useSocket\<close> (\<open>socket/socket.js\<close>) is not among the
  sources. The specification's \<open>onLiveMessage\<close> appends the message to the live
  messages, and its connection state is reported by \<open>onConnectionChange\<close>.
\<close>

definition onLiveMessage :: "message \<Rightarrow> app \<Rightarrow> app" where
  "onLiveMessage m s = s\<lparr>liveMessages := liveMessages s @ [m]\<rparr>"

definition onConnectionChange :: "bool \<Rightarrow> app \<Rightarrow> app" where
  "onConnectionChange b s = s\<lparr>isConnected := b\<rparr>"

section \<open>Time\<close>

text \<open>
  The clock advances by \<open>d\<close> ms. Every timer that is due by then is removed from the
  table and its callback runs; all timers of this component carry the same callback.
\<close>

definition advance :: "nat \<Rightarrow> app \<Rightarrow> app" where
  "advance d s =
     (let t = now s + d;
          due = filter (\<lambda>(h, at). at \<le> t) (timers s);
          s1 = s\<lparr>now := t, timers := filter (\<lambda>(h, at). \<not> at \<le> t) (timers s)\<rparr>
      in fold (\<lambda>_. typing_timeout_cb) due s1)"

section \<open>Events\<close>

datatype event =
    AuthStateChanged "string option"
  | CustomTokenRejected
  | SubmitUsername string
  | Snapshot "doc list"
  | SnapshotError string
  | AddDocSettled outcome
  | LiveMessage message
  | ConnectionChange bool
  | InputChange string
  | Submit
  | Elapse nat

text \<open>
  Which events can reach a handler. The auth callback exists once the listener is
  registered, and a custom token can only be rejected after it was tried.
\<close>

definition custom_token_tried :: "app \<Rightarrow> bool" where
  "custom_token_tried s =
     list_ex (\<lambda>c. case c of SignInWithCustomToken tok \<Rightarrow> True | _ \<Rightarrow> False) (trace s)"

definition connect_issued :: "app \<Rightarrow> bool" where
  "connect_issued s = list_ex (\<lambda>c. case c of Connect u \<Rightarrow> True | _ \<Rightarrow> False) (trace s)"

text \<open>
  Modelled from the spec: the hook \<open>useSocket\<close> is not among the sources. In the
  lifecycle of the specification Connecting precedes Connected, so the hook reports a
  connection only after \<open>connect\<close> was called; it can report a loss at any time.
\<close>

definition connection_reportable :: "bool \<Rightarrow> app \<Rightarrow> bool" where
  "connection_reportable b s = (connect_issued s \<or> \<not> b)"

text \<open>
  The username prompt is rendered while the username is empty, the chat form otherwise;
  the message input and the send button are disabled while the hook reports no
  connection.
\<close>

definition chat_form_enabled :: "app \<Rightarrow> bool" where
  "chat_form_enabled s = (username s \<noteq> [] \<and> isConnected s)"

definition handle :: "config \<Rightarrow> event \<Rightarrow> app \<Rightarrow> app" where
  "handle cfg e s =
     (case e of
        AuthStateChanged user \<Rightarrow> if authListener s then onAuthStateChanged_cb user s else s
      | CustomTokenRejected \<Rightarrow> if custom_token_tried s then customToken_catch s else s
      | SubmitUsername raw \<Rightarrow> if username s = [] then username_submit raw s else s
      | Snapshot docs \<Rightarrow> onSnapshot_next docs s
      | SnapshotError err \<Rightarrow> onSnapshot_error err s
      | AddDocSettled r \<Rightarrow> addDoc_settled cfg r s
      | LiveMessage m \<Rightarrow> onLiveMessage m s
      | ConnectionChange b \<Rightarrow>
          if connection_reportable b s then onConnectionChange b s else s
      | InputChange t \<Rightarrow> if chat_form_enabled s then handleInputChange t s else s
      | Submit \<Rightarrow> if chat_form_enabled s then handleSend cfg s else s
      | Elapse d \<Rightarrow> advance d s)"

text \<open>After a handler, React renders and runs the effects in the order they are declared.\<close>

definition render :: "config \<Rightarrow> app \<Rightarrow> app \<Rightarrow> app" where
  "render cfg prev s = socket_connection_effect (firestore_listener_effect cfg prev s)"

definition step :: "config \<Rightarrow> event \<Rightarrow> app \<Rightarrow> app" where
  "step cfg e s = render cfg s (handle cfg e s)"

fun run :: "config \<Rightarrow> event list \<Rightarrow> app \<Rightarrow> app" where
  "run cfg [] s = s"
| "run cfg (e # es) s = run cfg es (step cfg e s)"

text \<open>
  Mounting: the effects run once on the initial state (the listener and the connection
  effect find nothing to do there), the state set by the initialisation effect is
  rendered, and the effects whose dependencies changed run again.
\<close>

definition mount :: "config \<Rightarrow> app" where
  "mount cfg = render cfg initial (init_effect cfg initial)"

section \<open>Observations used by the properties\<close>

text \<open>The typing commands and the connection attempts of a trace.\<close>

fun typing_cmds :: "command list \<Rightarrow> bool list" where
  "typing_cmds [] = []"
| "typing_cmds (SetTyping b # cs) = b # typing_cmds cs"
| "typing_cmds (_ # cs) = typing_cmds cs"

fun connects :: "command list \<Rightarrow> string list" where
  "connects [] = []"
| "connects (Connect u # cs) = u # connects cs"
| "connects (_ # cs) = connects cs"

text \<open>
  Commands to the durable store and the live transport; the sign-in commands go to the
  identity provider.
\<close>

fun store_or_transport :: "command \<Rightarrow> bool" where
  "store_or_transport SignInAnonymously = False"
| "store_or_transport (SignInWithCustomToken _) = False"
| "store_or_transport _ = True"

text \<open>The documents of the last snapshot event of a history, and its live messages.\<close>

fun latest_snapshot :: "event list \<Rightarrow> doc list option" where
  "latest_snapshot [] = None"
| "latest_snapshot (Snapshot docs # es) =
     (case latest_snapshot es of None \<Rightarrow> Some docs | Some later \<Rightarrow> Some later)"
| "latest_snapshot (_ # es) = latest_snapshot es"

fun live_received :: "event list \<Rightarrow> message list" where
  "live_received [] = []"
| "live_received (LiveMessage m # es) = m # live_received es"
| "live_received (_ # es) = live_received es"

text \<open>
  The ref and the timer table agree: no timer is pending when the ref is null, and
  otherwise exactly one is, the one whose handle the ref holds.
\<close>

definition timer_ok :: "app \<Rightarrow> bool" where
  "timer_ok s =
     (case typingTimeoutRef s of
        None \<Rightarrow> timers s = []
      | Some h \<Rightarrow> map fst (timers s) = [h])"

text \<open>
  A burst of input changes: the first text, then each further text with the time that
  passed since the previous change.
\<close>

definition keystrokes :: "string \<Rightarrow> (nat \<times> string) list \<Rightarrow> event list" where
  "keystrokes t0 rest = InputChange t0 # concat (map (\<lambda>(d, t). [Elapse d, InputChange t]) rest)"

text \<open>The position in the view of the \<open>j\<close>-th live message.\<close>

definition live_position :: "app \<Rightarrow> nat \<Rightarrow> nat" where
  "live_position s j = length (persistentMessages s) + j"

text \<open>
  The state between two keystrokes of a burst: the chat form is enabled and the timer
  set by the last input change is pending, due 2000 ms after that change.
\<close>

definition typing_armed :: "app \<Rightarrow> bool" where
  "typing_armed s =
     (chat_form_enabled s \<and>
      (case typingTimeoutRef s of None \<Rightarrow> False | Some h \<Rightarrow> timers s = [(h, now s + 2000)]))"

text \<open>The state without its console: what the collaborators and the page can observe.\<close>

definition mute :: "app \<Rightarrow> app" where
  "mute s = s\<lparr>console := []\<rparr>"

text \<open>
  What holds of the lifecycle in every state reached from mounting: a database exists
  once the auth listener is registered or identity is ready; the listener is subscribed
  exactly when identity is ready; before readiness nothing was asked of the store or the
  transport, the transport is not connected and no timer is pending; the connect flag is
  set exactly when identity is ready and a username is chosen, and the connection
  attempts are then that one username.
\<close>

definition lifecycle_inv :: "config \<Rightarrow> app \<Rightarrow> bool" where
  "lifecycle_inv cfg s =
     ((authListener s \<longrightarrow> db s \<noteq> None) \<and>
      (isAuthReady s \<longrightarrow> db s \<noteq> None) \<and>
      subscribed s = isAuthReady s \<and>
      (isAuthReady s \<longrightarrow> Subscribe (chat_query cfg) \<in> set (trace s)) \<and>
      (\<not> isAuthReady s \<longrightarrow>
         filter store_or_transport (trace s) = [] \<and> \<not> isConnected s \<and> timers s = []) \<and>
      hasConnectedRef s = (isAuthReady s \<and> username s \<noteq> []) \<and>
      connects (trace s) = (if hasConnectedRef s then [username s] else []))"

section \<open>Sample data\<close>

text \<open>Concrete configurations, messages and documents on which the results are run.\<close>

definition cfg_local :: config where
  "cfg_local =
     \<lparr>appId = ''default-app-id'', IS_DUMMY_KEY = True, initialAuthToken = None,
      init_throws = False, random_suffix = ''k3x9''\<rparr>"

definition cfg_prod :: config where
  "cfg_prod =
     \<lparr>appId = ''chat'', IS_DUMMY_KEY = False, initialAuthToken = None,
      init_throws = False, random_suffix = ''k3x9''\<rparr>"

definition text_msg :: "string option \<Rightarrow> string \<Rightarrow> string \<Rightarrow> instant \<Rightarrow> message" where
  "text_msg i who what at =
     \<lparr>msg_id = i, msg_sender = Some who, msg_text = Some what, msg_timestamp = Some at,
      msg_system = False, msg_isPrivate = False\<rparr>"

definition stored :: "string \<Rightarrow> string \<Rightarrow> string \<Rightarrow> instant \<Rightarrow> doc" where
  "stored i who what at = \<lparr>doc_id = i, doc_data = text_msg None who what at\<rparr>"

text \<open>
  A session in which alice has joined and the view shows two live messages: a system
  notice without id and a message of bob's with id \<open>m1\<close>.
\<close>

definition chat_open :: app where
  "chat_open =
     run cfg_local
       [SubmitUsername ''alice'', ConnectionChange True,
        LiveMessage (text_msg None ''System'' ''bob joined'' 5),
        LiveMessage (text_msg (Some ''m1'') ''bob'' ''hi'' 6)]
       (mount cfg_local)"

section \<open>Primitives and handlers, field by field\<close>

lemma setTimeout_fst [simp]: "fst (setTimeout delay s) = nextTimerId s"
  by (simp add: setTimeout_def)

lemma emit_fields [simp]:
  "db (emit c s) = db s"
  "userId (emit c s) = userId s"
  "isAuthReady (emit c s) = isAuthReady s"
  "username (emit c s) = username s"
  "input (emit c s) = input s"
  "persistentMessages (emit c s) = persistentMessages s"
  "liveMessages (emit c s) = liveMessages s"
  "isConnected (emit c s) = isConnected s"
  "typingTimeoutRef (emit c s) = typingTimeoutRef s"
  "hasConnectedRef (emit c s) = hasConnectedRef s"
  "now (emit c s) = now s"
  "timers (emit c s) = timers s"
  "nextTimerId (emit c s) = nextTimerId s"
  "subscribed (emit c s) = subscribed s"
  "authListener (emit c s) = authListener s"
  "trace (emit c s) = trace s @ [c]"
  "console (emit c s) = console s"
  by (simp_all add: emit_def)

lemma console_warn_fields [simp]:
  "db (console_warn m s) = db s"
  "userId (console_warn m s) = userId s"
  "isAuthReady (console_warn m s) = isAuthReady s"
  "username (console_warn m s) = username s"
  "input (console_warn m s) = input s"
  "persistentMessages (console_warn m s) = persistentMessages s"
  "liveMessages (console_warn m s) = liveMessages s"
  "isConnected (console_warn m s) = isConnected s"
  "typingTimeoutRef (console_warn m s) = typingTimeoutRef s"
  "hasConnectedRef (console_warn m s) = hasConnectedRef s"
  "now (console_warn m s) = now s"
  "timers (console_warn m s) = timers s"
  "nextTimerId (console_warn m s) = nextTimerId s"
  "subscribed (console_warn m s) = subscribed s"
  "authListener (console_warn m s) = authListener s"
  "trace (console_warn m s) = trace s"
  "console (console_warn m s) = console s @ [Warn m]"
  by (simp_all add: console_warn_def)

lemma console_error_fields [simp]:
  "db (console_error m s) = db s"
  "userId (console_error m s) = userId s"
  "isAuthReady (console_error m s) = isAuthReady s"
  "username (console_error m s) = username s"
  "input (console_error m s) = input s"
  "persistentMessages (console_error m s) = persistentMessages s"
  "liveMessages (console_error m s) = liveMessages s"
  "isConnected (console_error m s) = isConnected s"
  "typingTimeoutRef (console_error m s) = typingTimeoutRef s"
  "hasConnectedRef (console_error m s) = hasConnectedRef s"
  "now (console_error m s) = now s"
  "timers (console_error m s) = timers s"
  "nextTimerId (console_error m s) = nextTimerId s"
  "subscribed (console_error m s) = subscribed s"
  "authListener (console_error m s) = authListener s"
  "trace (console_error m s) = trace s"
  "console (console_error m s) = console s @ [Error m]"
  by (simp_all add: console_error_def)

lemma clearTimeout_fields [simp]:
  "db (clearTimeout h s) = db s"
  "userId (clearTimeout h s) = userId s"
  "isAuthReady (clearTimeout h s) = isAuthReady s"
  "username (clearTimeout h s) = username s"
  "input (clearTimeout h s) = input s"
  "persistentMessages (clearTimeout h s) = persistentMessages s"
  "liveMessages (clearTimeout h s) = liveMessages s"
  "isConnected (clearTimeout h s) = isConnected s"
  "typingTimeoutRef (clearTimeout h s) = typingTimeoutRef s"
  "hasConnectedRef (clearTimeout h s) = hasConnectedRef s"
  "now (clearTimeout h s) = now s"
  "timers (clearTimeout h s) =
     (case h of None \<Rightarrow> timers s | Some i \<Rightarrow> filter (\<lambda>(j, due). j \<noteq> i) (timers s))"
  "nextTimerId (clearTimeout h s) = nextTimerId s"
  "subscribed (clearTimeout h s) = subscribed s"
  "authListener (clearTimeout h s) = authListener s"
  "trace (clearTimeout h s) = trace s"
  "console (clearTimeout h s) = console s"
  by (simp_all add: clearTimeout_def split: option.splits)

lemma setTimeout_fields [simp]:
  "db (snd (setTimeout delay s)) = db s"
  "userId (snd (setTimeout delay s)) = userId s"
  "isAuthReady (snd (setTimeout delay s)) = isAuthReady s"
  "username (snd (setTimeout delay s)) = username s"
  "input (snd (setTimeout delay s)) = input s"
  "persistentMessages (snd (setTimeout delay s)) = persistentMessages s"
  "liveMessages (snd (setTimeout delay s)) = liveMessages s"
  "isConnected (snd (setTimeout delay s)) = isConnected s"
  "typingTimeoutRef (snd (setTimeout delay s)) = typingTimeoutRef s"
  "hasConnectedRef (snd (setTimeout delay s)) = hasConnectedRef s"
  "now (snd (setTimeout delay s)) = now s"
  "timers (snd (setTimeout delay s)) = timers s @ [(nextTimerId s, now s + delay)]"
  "nextTimerId (snd (setTimeout delay s)) = Suc (nextTimerId s)"
  "subscribed (snd (setTimeout delay s)) = subscribed s"
  "authListener (snd (setTimeout delay s)) = authListener s"
  "trace (snd (setTimeout delay s)) = trace s"
  "console (snd (setTimeout delay s)) = console s"
  by (simp_all add: setTimeout_def)

lemma mute_fields [simp]:
  "db (mute s) = db s"
  "userId (mute s) = userId s"
  "isAuthReady (mute s) = isAuthReady s"
  "username (mute s) = username s"
  "input (mute s) = input s"
  "persistentMessages (mute s) = persistentMessages s"
  "liveMessages (mute s) = liveMessages s"
  "isConnected (mute s) = isConnected s"
  "typingTimeoutRef (mute s) = typingTimeoutRef s"
  "hasConnectedRef (mute s) = hasConnectedRef s"
  "now (mute s) = now s"
  "timers (mute s) = timers s"
  "nextTimerId (mute s) = nextTimerId s"
  "subscribed (mute s) = subscribed s"
  "authListener (mute s) = authListener s"
  "trace (mute s) = trace s"
  "console (mute s) = []"
  by (simp_all add: mute_def)

lemma typing_timeout_cb_fields [simp]:
  "db (typing_timeout_cb s) = db s"
  "userId (typing_timeout_cb s) = userId s"
  "isAuthReady (typing_timeout_cb s) = isAuthReady s"
  "username (typing_timeout_cb s) = username s"
  "input (typing_timeout_cb s) = input s"
  "persistentMessages (typing_timeout_cb s) = persistentMessages s"
  "liveMessages (typing_timeout_cb s) = liveMessages s"
  "isConnected (typing_timeout_cb s) = isConnected s"
  "typingTimeoutRef (typing_timeout_cb s) = None"
  "hasConnectedRef (typing_timeout_cb s) = hasConnectedRef s"
  "now (typing_timeout_cb s) = now s"
  "timers (typing_timeout_cb s) = timers s"
  "nextTimerId (typing_timeout_cb s) = nextTimerId s"
  "subscribed (typing_timeout_cb s) = subscribed s"
  "authListener (typing_timeout_cb s) = authListener s"
  "trace (typing_timeout_cb s) = trace s @ [SetTyping False]"
  "console (typing_timeout_cb s) = console s"
  by (simp_all add: typing_timeout_cb_def)

lemma fired_fields [simp]:
  "db (fold (\<lambda>_. typing_timeout_cb) ds s) = db s"
  "userId (fold (\<lambda>_. typing_timeout_cb) ds s) = userId s"
  "isAuthReady (fold (\<lambda>_. typing_timeout_cb) ds s) = isAuthReady s"
  "username (fold (\<lambda>_. typing_timeout_cb) ds s) = username s"
  "input (fold (\<lambda>_. typing_timeout_cb) ds s) = input s"
  "persistentMessages (fold (\<lambda>_. typing_timeout_cb) ds s) = persistentMessages s"
  "liveMessages (fold (\<lambda>_. typing_timeout_cb) ds s) = liveMessages s"
  "isConnected (fold (\<lambda>_. typing_timeout_cb) ds s) = isConnected s"
  "typingTimeoutRef (fold (\<lambda>_. typing_timeout_cb) ds s) =
     (if ds = [] then typingTimeoutRef s else None)"
  "hasConnectedRef (fold (\<lambda>_. typing_timeout_cb) ds s) = hasConnectedRef s"
  "now (fold (\<lambda>_. typing_timeout_cb) ds s) = now s"
  "timers (fold (\<lambda>_. typing_timeout_cb) ds s) = timers s"
  "nextTimerId (fold (\<lambda>_. typing_timeout_cb) ds s) = nextTimerId s"
  "subscribed (fold (\<lambda>_. typing_timeout_cb) ds s) = subscribed s"
  "authListener (fold (\<lambda>_. typing_timeout_cb) ds s) = authListener s"
  "trace (fold (\<lambda>_. typing_timeout_cb) ds s) =
     trace s @ replicate (length ds) (SetTyping False)"
  "console (fold (\<lambda>_. typing_timeout_cb) ds s) = console s"
  by (induction ds arbitrary: s) (simp_all add: replicate_append_same)

lemma advance_fields [simp]:
  "db (advance d s) = db s"
  "userId (advance d s) = userId s"
  "isAuthReady (advance d s) = isAuthReady s"
  "username (advance d s) = username s"
  "input (advance d s) = input s"
  "persistentMessages (advance d s) = persistentMessages s"
  "liveMessages (advance d s) = liveMessages s"
  "isConnected (advance d s) = isConnected s"
  "typingTimeoutRef (advance d s) =
     (if filter (\<lambda>(h, at). at \<le> now s + d) (timers s) = [] then typingTimeoutRef s else None)"
  "hasConnectedRef (advance d s) = hasConnectedRef s"
  "now (advance d s) = now s + d"
  "timers (advance d s) = filter (\<lambda>(h, at). \<not> at \<le> now s + d) (timers s)"
  "nextTimerId (advance d s) = nextTimerId s"
  "subscribed (advance d s) = subscribed s"
  "authListener (advance d s) = authListener s"
  "trace (advance d s) =
     trace s
     @ replicate (length (filter (\<lambda>(h, at). at \<le> now s + d) (timers s))) (SetTyping False)"
  "console (advance d s) = console s"
  by (simp_all add: advance_def Let_def)

lemma handleInputChange_fields:
  "db (handleInputChange newText s) = db s"
  "userId (handleInputChange newText s) = userId s"
  "isAuthReady (handleInputChange newText s) = isAuthReady s"
  "username (handleInputChange newText s) = username s"
  "input (handleInputChange newText s) = newText"
  "persistentMessages (handleInputChange newText s) = persistentMessages s"
  "liveMessages (handleInputChange newText s) = liveMessages s"
  "isConnected (handleInputChange newText s) = isConnected s"
  "typingTimeoutRef (handleInputChange newText s) = Some (nextTimerId s)"
  "hasConnectedRef (handleInputChange newText s) = hasConnectedRef s"
  "now (handleInputChange newText s) = now s"
  "timers (handleInputChange newText s) =
     (case typingTimeoutRef s of None \<Rightarrow> timers s | Some i \<Rightarrow> filter (\<lambda>(j, due). j \<noteq> i) (timers s))
     @ [(nextTimerId s, now s + 2000)]"
  "nextTimerId (handleInputChange newText s) = Suc (nextTimerId s)"
  "subscribed (handleInputChange newText s) = subscribed s"
  "authListener (handleInputChange newText s) = authListener s"
  "trace (handleInputChange newText s) =
     trace s
     @ (if newText \<noteq> [] \<and> typingTimeoutRef s = None then [SetTyping True] else [])"
  "console (handleInputChange newText s) = console s"
  by (simp_all add: handleInputChange_def Let_def split_beta split: option.splits)

lemma handleSend_fields:
  assumes "trim (input s) \<noteq> []" and "username s \<noteq> []"
  shows
  "db (handleSend cfg s) = db s"
  "userId (handleSend cfg s) = userId s"
  "isAuthReady (handleSend cfg s) = isAuthReady s"
  "username (handleSend cfg s) = username s"
  "input (handleSend cfg s) = []"
  "persistentMessages (handleSend cfg s) = persistentMessages s"
  "liveMessages (handleSend cfg s) = liveMessages s"
  "isConnected (handleSend cfg s) = isConnected s"
  "typingTimeoutRef (handleSend cfg s) = None"
  "hasConnectedRef (handleSend cfg s) = hasConnectedRef s"
  "now (handleSend cfg s) = now s"
  "timers (handleSend cfg s) =
     (case typingTimeoutRef s of None \<Rightarrow> timers s | Some i \<Rightarrow> filter (\<lambda>(j, due). j \<noteq> i) (timers s))"
  "nextTimerId (handleSend cfg s) = nextTimerId s"
  "subscribed (handleSend cfg s) = subscribed s"
  "authListener (handleSend cfg s) = authListener s"
  "trace (handleSend cfg s) =
     trace s @ [SendMessage (trim (input s))]
     @ (if db s = None then [] else [AddDoc (chatPath cfg) \<lparr>msg_id = None, msg_sender = Some (username s), msg_text = Some (trim (input s)), msg_timestamp = Some (now s), msg_system = False, msg_isPrivate = False\<rparr>])
     @ [SetTyping False]"
  "console (handleSend cfg s) = console s"
  using assms by (simp_all add: handleSend_def sendMessageToDb_def Let_def split: option.splits)

lemma handleSend_noop:
  "trim (input s) = [] \<or> username s = [] \<Longrightarrow> handleSend cfg s = s"
  by (auto simp add: handleSend_def Let_def)

section \<open>Messages under effects and handlers\<close>

lemmas effect_defs =
  render_def firestore_listener_effect_def socket_connection_effect_def emit_def

lemmas handler_defs =
  onAuthStateChanged_cb_def customToken_catch_def username_submit_def onSnapshot_next_def
  onSnapshot_error_def addDoc_settled_def onLiveMessage_def onConnectionChange_def
  handleInputChange_def handleSend_def sendMessageToDb_def clearTimeout_def setTimeout_def
  emit_def console_error_def

lemma render_messages:
  "persistentMessages (render cfg p s) = persistentMessages s"
  "liveMessages (render cfg p s) = liveMessages s"
  by (simp_all add: effect_defs Let_def)

lemma fired_messages:
  "persistentMessages (fold (\<lambda>_. typing_timeout_cb) ds s) = persistentMessages s"
  "liveMessages (fold (\<lambda>_. typing_timeout_cb) ds s) = liveMessages s"
  by (induction ds arbitrary: s) (simp_all add: typing_timeout_cb_def emit_def)

lemma advance_messages:
  "persistentMessages (advance d s) = persistentMessages s"
  "liveMessages (advance d s) = liveMessages s"
  by (simp_all add: advance_def Let_def fired_messages)

lemma handle_persistent:
  "persistentMessages (handle cfg e s) =
     (case e of Snapshot docs \<Rightarrow> rev (map doc_message docs) | _ \<Rightarrow> persistentMessages s)"
  by (cases e)
     (simp_all add: handle_def handler_defs advance_messages Let_def
        split: option.splits outcome.splits)

lemma handle_live:
  "liveMessages (handle cfg e s) =
     (case e of LiveMessage m \<Rightarrow> liveMessages s @ [m] | _ \<Rightarrow> liveMessages s)"
  by (cases e)
     (simp_all add: handle_def handler_defs advance_messages Let_def
        split: option.splits outcome.splits)

lemma run_persistent:
  "persistentMessages (run cfg es s) =
     (case latest_snapshot es of None \<Rightarrow> persistentMessages s
      | Some docs \<Rightarrow> rev (map doc_message docs))"
proof (induction es arbitrary: s)
  case Nil
  show ?case by simp
next
  case (Cons e es)
  show ?case
    by (cases e)
       (simp_all add: Cons.IH step_def render_messages handle_persistent split: option.splits)
qed

lemma run_live: "liveMessages (run cfg es s) = liveMessages s @ live_received es"
proof (induction es arbitrary: s)
  case Nil
  show ?case by simp
next
  case (Cons e es)
  show ?case
    by (cases e) (simp_all add: Cons.IH step_def render_messages handle_live)
qed

lemma mount_messages:
  "persistentMessages (mount cfg) = []" "liveMessages (mount cfg) = []"
  by (simp_all add: mount_def render_messages init_effect_def initial_def Let_def emit_def
      console_error_def split: option.splits)

section \<open>The merged view is the durable history followed by the live messages\<close>

text \<open>
  Claim C1. In every state the rendered sequence is the durable messages followed by
  the live messages, so its first part is the durable list and the rest is the live
  list, whatever the timestamps are. After any history of events since mounting, the
  view is the last snapshot's documents, oldest first and carrying their document ids
  (nothing when no snapshot arrived), followed by the live messages in the order they
  were received.
\<close>

theorem view_is_durable_then_live:
  "allMessages s = persistentMessages s @ liveMessages s \<and>
   take (length (persistentMessages s)) (allMessages s) = persistentMessages s \<and>
   drop (length (persistentMessages s)) (allMessages s) = liveMessages s \<and>
   allMessages (run cfg es (mount cfg)) =
     (case latest_snapshot es of None \<Rightarrow> [] | Some docs \<Rightarrow> rev (map doc_message docs))
     @ live_received es"
  by (simp add: allMessages_def run_persistent run_live mount_messages split: option.splits)

text \<open>
  A run: a live message stamped 5 arrives between two snapshots; the last snapshot
  holds documents stamped 90 and 70 (newest first). The view shows 70, 90, then 5.
\<close>

theorem view_is_durable_then_live_witness:
  "allMessages
     (run cfg_local
        [Snapshot [stored ''d1'' ''ann'' ''old'' 10],
         LiveMessage (text_msg None ''bob'' ''hi'' 5),
         Snapshot [stored ''d3'' ''ann'' ''new'' 90, stored ''d2'' ''bob'' ''mid'' 70]]
        (mount cfg_local))
   = [text_msg (Some ''d2'') ''bob'' ''mid'' 70, text_msg (Some ''d3'') ''ann'' ''new'' 90,
      text_msg None ''bob'' ''hi'' 5]"
  using view_is_durable_then_live
    [where cfg = cfg_local and s = initial and es =
      "[Snapshot [stored ''d1'' ''ann'' ''old'' 10],
        LiveMessage (text_msg None ''bob'' ''hi'' 5),
        Snapshot [stored ''d3'' ''ann'' ''new'' 90, stored ''d2'' ''bob'' ''mid'' 70]]"]
  by (simp add: doc_message_def stored_def text_msg_def)

section \<open>Effects, field by field\<close>

lemma firestore_listener_effect_fields:
  "db (firestore_listener_effect cfg prev s) = db s"
  "userId (firestore_listener_effect cfg prev s) = userId s"
  "isAuthReady (firestore_listener_effect cfg prev s) = isAuthReady s"
  "username (firestore_listener_effect cfg prev s) = username s"
  "input (firestore_listener_effect cfg prev s) = input s"
  "persistentMessages (firestore_listener_effect cfg prev s) = persistentMessages s"
  "liveMessages (firestore_listener_effect cfg prev s) = liveMessages s"
  "isConnected (firestore_listener_effect cfg prev s) = isConnected s"
  "typingTimeoutRef (firestore_listener_effect cfg prev s) = typingTimeoutRef s"
  "hasConnectedRef (firestore_listener_effect cfg prev s) = hasConnectedRef s"
  "now (firestore_listener_effect cfg prev s) = now s"
  "timers (firestore_listener_effect cfg prev s) = timers s"
  "nextTimerId (firestore_listener_effect cfg prev s) = nextTimerId s"
  "subscribed (firestore_listener_effect cfg prev s) =
     (if isAuthReady prev = isAuthReady s \<and> db prev = db s then subscribed s
      else \<not> (\<not> isAuthReady s \<or> db s = None))"
  "authListener (firestore_listener_effect cfg prev s) = authListener s"
  "trace (firestore_listener_effect cfg prev s) =
     trace s @
       (if isAuthReady prev = isAuthReady s \<and> db prev = db s then []
        else (if subscribed s then [Unsubscribe] else []) @
             (if \<not> isAuthReady s \<or> db s = None then [] else [Subscribe (chat_query cfg)]))"
  "console (firestore_listener_effect cfg prev s) = console s"
  by (simp_all add: firestore_listener_effect_def Let_def)

lemma socket_connection_effect_fields:
  "db (socket_connection_effect s) = db s"
  "userId (socket_connection_effect s) = userId s"
  "isAuthReady (socket_connection_effect s) = isAuthReady s"
  "username (socket_connection_effect s) = username s"
  "input (socket_connection_effect s) = input s"
  "persistentMessages (socket_connection_effect s) = persistentMessages s"
  "liveMessages (socket_connection_effect s) = liveMessages s"
  "isConnected (socket_connection_effect s) = isConnected s"
  "typingTimeoutRef (socket_connection_effect s) = typingTimeoutRef s"
  "hasConnectedRef (socket_connection_effect s) =
     (hasConnectedRef s \<or> isAuthReady s \<and> username s \<noteq> [])"
  "now (socket_connection_effect s) = now s"
  "timers (socket_connection_effect s) = timers s"
  "nextTimerId (socket_connection_effect s) = nextTimerId s"
  "subscribed (socket_connection_effect s) = subscribed s"
  "authListener (socket_connection_effect s) = authListener s"
  "trace (socket_connection_effect s) =
     trace s @
       (if isAuthReady s \<and> username s \<noteq> [] \<and> \<not> hasConnectedRef s
        then [Connect (username s)] else [])"
  "console (socket_connection_effect s) = console s"
  by (auto simp add: socket_connection_effect_def)

lemmas render_fields = render_def firestore_listener_effect_fields socket_connection_effect_fields

lemmas plain_handler_defs =
  onAuthStateChanged_cb_def customToken_catch_def username_submit_def onSnapshot_next_def
  onSnapshot_error_def addDoc_settled_def onLiveMessage_def onConnectionChange_def

text \<open>Everything needed to run the model on concrete events.\<close>

lemmas run_defs =
  step_def handle_def render_def firestore_listener_effect_def socket_connection_effect_def
  mount_def init_effect_def initial_def plain_handler_defs handleInputChange_def handleSend_def
  sendMessageToDb_def clearTimeout_def setTimeout_def emit_def console_error_def
  console_warn_def custom_token_tried_def advance_def
  typing_timeout_cb_def chat_form_enabled_def connect_issued_def connection_reportable_def
  trim_def is_space_def
  cfg_local_def cfg_prod_def chat_query_def chatPath_def Let_def

section \<open>The console is write-only\<close>

text \<open>
  No handler and no effect reads the console, so two states that differ only there stay
  so under every history.
\<close>

lemma mute_idem [simp]: "mute (mute s) = mute s"
  by (simp add: mute_def)

lemma mute_render: "mute (render cfg p s) = render cfg (mute p) (mute s)"
  by (rule app.equality) (simp_all add: render_fields)

lemma mute_advance: "mute (advance d s) = advance d (mute s)"
  by (rule app.equality) simp_all

lemma mute_handleInputChange: "mute (handleInputChange t s) = handleInputChange t (mute s)"
  by (rule app.equality) (simp_all add: handleInputChange_fields cong: option.case_cong)

lemma mute_handleSend: "mute (handleSend cfg s) = handleSend cfg (mute s)"
proof (cases "trim (input s) = [] \<or> username s = []")
  case True
  then show ?thesis
    by (simp add: handleSend_noop)
next
  case False
  then show ?thesis
    by (intro app.equality) (simp_all add: handleSend_fields cong: option.case_cong)
qed

lemma mute_handle: "mute (handle cfg e s) = mute (handle cfg e (mute s))"
proof (cases e)
  case (AuthStateChanged user)
  show ?thesis
    by (rule app.equality)
       (simp_all add: AuthStateChanged handle_def onAuthStateChanged_cb_def
          split: option.splits)
next
  case CustomTokenRejected
  show ?thesis
    by (rule app.equality)
       (simp_all add: CustomTokenRejected handle_def customToken_catch_def
          custom_token_tried_def)
next
  case (SubmitUsername raw)
  show ?thesis
    by (rule app.equality) (simp_all add: SubmitUsername handle_def username_submit_def Let_def)
next
  case (Snapshot docs)
  show ?thesis
    by (rule app.equality) (simp_all add: Snapshot handle_def onSnapshot_next_def Let_def)
next
  case (SnapshotError err)
  show ?thesis
    by (rule app.equality) (simp_all add: SnapshotError handle_def onSnapshot_error_def)
next
  case (AddDocSettled r)
  show ?thesis
    by (rule app.equality)
       (simp_all add: AddDocSettled handle_def addDoc_settled_def split: outcome.splits)
next
  case (LiveMessage m)
  show ?thesis
    by (rule app.equality) (simp_all add: LiveMessage handle_def onLiveMessage_def)
next
  case (ConnectionChange b)
  show ?thesis
    by (rule app.equality)
       (simp_all add: ConnectionChange handle_def onConnectionChange_def connect_issued_def
          connection_reportable_def)
next
  case (InputChange t)
  show ?thesis
    by (simp add: InputChange handle_def chat_form_enabled_def mute_handleInputChange)
next
  case Submit
  show ?thesis
    by (simp add: Submit handle_def chat_form_enabled_def mute_handleSend)
next
  case (Elapse d)
  show ?thesis
    by (simp add: Elapse handle_def mute_advance)
qed

lemma mute_step: "mute (step cfg e s) = mute (step cfg e (mute s))"
proof -
  have "mute (step cfg e s) = render cfg (mute s) (mute (handle cfg e s))"
    by (simp add: step_def mute_render)
  also have "\<dots> = render cfg (mute (mute s)) (mute (handle cfg e (mute s)))"
    using mute_handle [of cfg e s] by simp
  also have "\<dots> = mute (step cfg e (mute s))"
    by (simp add: step_def mute_render)
  finally show ?thesis .
qed

lemma mute_run: "mute (run cfg es s) = mute (run cfg es (mute s))"
proof (induction es arbitrary: s)
  case Nil
  show ?case by simp
next
  case (Cons e es)
  have "mute (run cfg (e # es) s) = mute (run cfg es (mute (step cfg e s)))"
    using Cons.IH [of "step cfg e s"] by simp
  also have "\<dots> = mute (run cfg es (mute (step cfg e (mute s))))"
    by (simp add: mute_step [of cfg e s])
  also have "\<dots> = mute (run cfg (e # es) (mute s))"
    using Cons.IH [of "step cfg e (mute s)"] by simp
  finally show ?case .
qed

lemma run_cong_mute:
  assumes "mute s = mute s'"
  shows "mute (run cfg es s) = mute (run cfg es s')"
  using mute_run [of cfg es s] mute_run [of cfg es s'] assms by simp

section \<open>Histories\<close>

lemma run_append: "run cfg (es @ es') s = run cfg es' (run cfg es s)"
  by (induction es arbitrary: s) simp_all

lemma render_settled: "render cfg (render cfg p s) (render cfg p s) = render cfg p s"
  by (rule app.equality) (auto simp add: render_fields)

lemma run_settled:
  "render cfg (run cfg es (mount cfg)) (run cfg es (mount cfg)) = run cfg es (mount cfg)"
proof (induction es rule: rev_induct)
  case Nil
  show ?case by (simp add: mount_def render_settled)
next
  case (snoc e es)
  show ?case by (simp add: run_append step_def render_settled)
qed

lemma allMessages_mute: "allMessages (mute s) = allMessages s"
  by (simp add: allMessages_def)

lemma mute_eq_fields:
  assumes "mute s = mute s'"
  shows "allMessages s = allMessages s'" "trace s = trace s'"
proof -
  show "allMessages s = allMessages s'"
    using allMessages_mute [of s] allMessages_mute [of s'] assms by simp
  have "trace (mute s) = trace (mute s')"
    using assms by simp
  then show "trace s = trace s'"
    by simp
qed

lemma mute_addDoc_settled: "mute (addDoc_settled cfg r s) = mute s"
  by (rule app.equality) (simp_all add: addDoc_settled_def split: outcome.splits)

lemma mute_onSnapshot_error: "mute (onSnapshot_error err s) = mute s"
  by (rule app.equality) (simp_all add: onSnapshot_error_def)

lemma mute_step_settled:
  assumes "mute (handle cfg e s) = mute s" and "render cfg s s = s"
  shows "mute (step cfg e s) = mute s"
proof -
  have "mute (step cfg e s) = render cfg (mute s) (mute (handle cfg e s))"
    by (simp add: step_def mute_render)
  also have "\<dots> = mute (render cfg s s)"
    by (simp add: assms(1) mute_render)
  finally show ?thesis
    by (simp add: assms(2))
qed

lemma trim_blank: "trim ''   '' = []"
  by (simp add: trim_def is_space_def)

section \<open>A snapshot replaces the durable list\<close>

text \<open>
  Claim C5. A snapshot event replaces the durable list, whatever it held before: the new
  list is the snapshot's documents in reverse order, each carrying its document id as
  its id. The query asks for the newest first and at most 50, so for a store that
  answers the query the list is the 50 newest documents, oldest first.
\<close>

theorem snapshot_replaces_durable:
  "persistentMessages (step cfg (Snapshot docs) s) = rev (map doc_message docs) \<and>
   map msg_id (persistentMessages (step cfg (Snapshot docs) s))
     = rev (map (\<lambda>d. Some (doc_id d)) docs) \<and>
   q_orderBy (chat_query cfg) = (''timestamp'', Desc) \<and>
   persistentMessages (step cfg (Snapshot (store_snapshot (chat_query cfg) newest_first)) s)
     = rev (map doc_message (take 50 newest_first)) \<and>
   length (persistentMessages
      (step cfg (Snapshot (store_snapshot (chat_query cfg) newest_first)) s)) \<le> 50"
  by (simp add: step_def render_messages handle_persistent store_snapshot_def chat_query_def
      rev_map doc_message_def comp_def)

text \<open>
  A snapshot of two documents over a durable list that held another one; and a
  collection of 60 documents, of which 50 arrive.
\<close>

theorem snapshot_replaces_durable_witness:
  "persistentMessages
     (step cfg_local
        (Snapshot [stored ''d3'' ''ann'' ''new'' 90, stored ''d2'' ''bob'' ''mid'' 70])
        (initial\<lparr>persistentMessages := [text_msg (Some ''d1'') ''ann'' ''old'' 10]\<rparr>))
   = [text_msg (Some ''d2'') ''bob'' ''mid'' 70, text_msg (Some ''d3'') ''ann'' ''new'' 90] \<and>
   length (persistentMessages
      (step cfg_local
         (Snapshot (store_snapshot (chat_query cfg_local)
            (replicate 60 (stored ''d'' ''ann'' ''x'' 1))))
         initial)) = 50"
  using snapshot_replaces_durable
    [where cfg = cfg_local
       and docs = "[stored ''d3'' ''ann'' ''new'' 90, stored ''d2'' ''bob'' ''mid'' 70]"
       and s = "initial\<lparr>persistentMessages := [text_msg (Some ''d1'') ''ann'' ''old'' 10]\<rparr>"
       and newest_first = "[]"]
    snapshot_replaces_durable
    [where cfg = cfg_local and s = initial and docs = "[]"
       and newest_first = "replicate 60 (stored ''d'' ''ann'' ''x'' 1)"]
  by (simp add: doc_message_def stored_def text_msg_def)

section \<open>A failed durable write changes nothing but the console\<close>

text \<open>
  Claim C6. When the append to the durable store is rejected, the rejection is caught:
  the state is the one a successful append leaves, up to the console. The view and the
  commands issued are the same, and they stay the same under every later history.
\<close>

theorem durable_write_failure_is_swallowed:
  "mute (addDoc_settled cfg (Rejected e) s) = mute s \<and>
   addDoc_settled cfg Resolved s = s \<and>
   allMessages (addDoc_settled cfg (Rejected e) s) = allMessages s \<and>
   trace (addDoc_settled cfg (Rejected e) s) = trace s \<and>
   mute (run cfg (es @ AddDocSettled (Rejected e) # es') (mount cfg))
     = mute (run cfg (es @ AddDocSettled Resolved # es') (mount cfg)) \<and>
   allMessages (run cfg (es @ AddDocSettled (Rejected e) # es') (mount cfg))
     = allMessages (run cfg (es @ AddDocSettled Resolved # es') (mount cfg))"
proof -
  let ?s = "run cfg es (mount cfg)"
  have a: "mute (addDoc_settled cfg (Rejected e) s) = mute s"
    by (rule mute_addDoc_settled)
  have b: "addDoc_settled cfg Resolved s = s"
    by (simp add: addDoc_settled_def)
  have "mute (step cfg (AddDocSettled r) ?s) = mute ?s" for r
    by (rule mute_step_settled) (simp_all add: handle_def mute_addDoc_settled run_settled)
  then have "mute (step cfg (AddDocSettled (Rejected e)) ?s)
      = mute (step cfg (AddDocSettled Resolved) ?s)"
    by simp
  then have c: "mute (run cfg (es @ AddDocSettled (Rejected e) # es') (mount cfg))
      = mute (run cfg (es @ AddDocSettled Resolved # es') (mount cfg))"
    using run_cong_mute [of "step cfg (AddDocSettled (Rejected e)) ?s"
        "step cfg (AddDocSettled Resolved) ?s" cfg es']
    by (simp add: run_append)
  show ?thesis
    using a b c mute_eq_fields [OF a] mute_eq_fields(1) [OF c] by simp
qed

text \<open>
  Alice sends ``hello'' and the append is rejected or resolves; the message then comes
  back over the live transport. Both views show it once.
\<close>

theorem durable_write_failure_is_swallowed_witness:
  "allMessages
     (run cfg_prod
        ([AuthStateChanged (Some ''u1''), SubmitUsername ''alice'', ConnectionChange True,
          InputChange ''hello'', Submit]
         @ AddDocSettled (Rejected ''offline'')
         # [LiveMessage (text_msg (Some ''m1'') ''alice'' ''hello'' 0)])
        (mount cfg_prod))
   = [text_msg (Some ''m1'') ''alice'' ''hello'' 0] \<and>
   allMessages
     (run cfg_prod
        ([AuthStateChanged (Some ''u1''), SubmitUsername ''alice'', ConnectionChange True,
          InputChange ''hello'', Submit]
         @ AddDocSettled Resolved
         # [LiveMessage (text_msg (Some ''m1'') ''alice'' ''hello'' 0)])
        (mount cfg_prod))
   = [text_msg (Some ''m1'') ''alice'' ''hello'' 0]"
  using durable_write_failure_is_swallowed
    [where cfg = cfg_prod and e = "''offline''" and s = initial
       and es = "[AuthStateChanged (Some ''u1''), SubmitUsername ''alice'',
                  ConnectionChange True, InputChange ''hello'', Submit]"
       and es' = "[LiveMessage (text_msg (Some ''m1'') ''alice'' ''hello'' 0)]"]
  by (simp add: run_defs allMessages_def)

section \<open>A send of blank text does nothing\<close>

text \<open>
  Claim C7. When the input is empty after trimming, \<open>handleSend\<close> returns the state it
  was given: nothing is emitted to the transport, nothing is written to the store, no
  typing command is issued, no timer is touched and no field changes.
\<close>

theorem blank_send_is_noop:
  "trim (input s) = [] \<Longrightarrow>
     handleSend cfg s = s \<and> handle cfg Submit s = s \<and>
     trace (handleSend cfg s) = trace s \<and> timers (handleSend cfg s) = timers s"
  by (simp add: handleSend_noop handle_def)

theorem blank_send_is_noop_witness:
  "handleSend cfg_local (initial\<lparr>username := ''alice'', input := ''   '', isConnected := True\<rparr>)
   = initial\<lparr>username := ''alice'', input := ''   '', isConnected := True\<rparr>"
  using blank_send_is_noop
    [of "initial\<lparr>username := ''alice'', input := ''   '', isConnected := True\<rparr>" cfg_local]
  by (simp add: trim_blank)

section \<open>A failed durable read keeps the last snapshot\<close>

text \<open>
  Claim C8. The error callback of the subscription only logs: the durable list is the
  one it was, and so is every other field but the console. A history with the error
  event in it leaves the state that the history without it leaves, up to the console,
  and a live message that arrives after the error is appended to the view.
\<close>

theorem durable_read_error_keeps_history:
  "persistentMessages (onSnapshot_error err s) = persistentMessages s \<and>
   mute (onSnapshot_error err s) = mute s \<and>
   mute (run cfg (es @ SnapshotError err # es') (mount cfg))
     = mute (run cfg (es @ es') (mount cfg)) \<and>
   allMessages (run cfg (es @ [SnapshotError err, LiveMessage m]) (mount cfg))
     = allMessages (run cfg es (mount cfg)) @ [m]"
proof -
  let ?s = "run cfg es (mount cfg)"
  have a: "mute (onSnapshot_error err s) = mute s"
    by (rule mute_onSnapshot_error)
  have "mute (step cfg (SnapshotError err) ?s) = mute ?s"
    by (rule mute_step_settled) (simp_all add: handle_def mute_onSnapshot_error run_settled)
  then have b: "mute (run cfg (es @ SnapshotError err # es') (mount cfg))
      = mute (run cfg (es @ es') (mount cfg))"
    using run_cong_mute [of "step cfg (SnapshotError err) ?s" ?s cfg es']
    by (simp add: run_append)
  have c: "allMessages (run cfg (es @ [SnapshotError err, LiveMessage m]) (mount cfg))
      = allMessages (run cfg es (mount cfg)) @ [m]"
    by (simp add: run_append allMessages_def step_def render_messages handle_persistent
        handle_live)
  show ?thesis
    using a b c by (simp add: onSnapshot_error_def)
qed

theorem durable_read_error_keeps_history_witness:
  "allMessages
     (run cfg_local
        ([Snapshot [stored ''d1'' ''ann'' ''old'' 10]]
         @ [SnapshotError ''unavailable'', LiveMessage (text_msg None ''bob'' ''hi'' 20)])
        (mount cfg_local))
   = [text_msg (Some ''d1'') ''ann'' ''old'' 10, text_msg None ''bob'' ''hi'' 20]"
  using durable_read_error_keeps_history
    [where cfg = cfg_local and err = "''unavailable''" and s = initial
       and es = "[Snapshot [stored ''d1'' ''ann'' ''old'' 10]]" and es' = "[]"
       and m = "text_msg None ''bob'' ''hi'' 20"]
  by (simp add: run_defs allMessages_def stored_def text_msg_def doc_message_def)

section \<open>Observations of a trace\<close>

lemma connects_append [simp]: "connects (cs @ ds) = connects cs @ connects ds"
  by (induction cs rule: connects.induct) simp_all

lemma typing_cmds_append [simp]: "typing_cmds (cs @ ds) = typing_cmds cs @ typing_cmds ds"
  by (induction cs rule: typing_cmds.induct) simp_all

lemma connects_replicate [simp]: "connects (replicate n (SetTyping b)) = []"
  by (induction n) simp_all

lemma ops_replicate [simp]:
  "filter store_or_transport (replicate n (SetTyping b)) = replicate n (SetTyping b)"
  by (induction n) simp_all

lemma list_ex_connects:
  "list_ex (\<lambda>c. case c of Connect u \<Rightarrow> True | _ \<Rightarrow> False) cs = (connects cs \<noteq> [])"
  by (induction cs rule: connects.induct) simp_all

lemma connect_issued_connects: "connect_issued s = (connects (trace s) \<noteq> [])"
  by (simp add: connect_issued_def list_ex_connects)

lemma connects_ops: "filter store_or_transport cs = [] \<Longrightarrow> connects cs = []"
  by (induction cs rule: connects.induct) (simp_all split: if_splits)

section \<open>What a handler keeps\<close>

lemma handle_simps:
  "handle cfg (AuthStateChanged user) s =
     (if authListener s then onAuthStateChanged_cb user s else s)"
  "handle cfg CustomTokenRejected s =
     (if custom_token_tried s then customToken_catch s else s)"
  "handle cfg (SubmitUsername raw) s = (if username s = [] then username_submit raw s else s)"
  "handle cfg (Snapshot docs) s = onSnapshot_next docs s"
  "handle cfg (SnapshotError err) s = onSnapshot_error err s"
  "handle cfg (AddDocSettled r) s = addDoc_settled cfg r s"
  "handle cfg (LiveMessage m) s = onLiveMessage m s"
  "handle cfg (ConnectionChange b) s =
     (if connection_reportable b s then onConnectionChange b s else s)"
  "handle cfg (InputChange t) s = (if chat_form_enabled s then handleInputChange t s else s)"
  "handle cfg Submit s = (if chat_form_enabled s then handleSend cfg s else s)"
  "handle cfg (Elapse d) s = advance d s"
  by (simp_all add: handle_def)

lemma handleSend_kept:
  "db (handleSend cfg s) = db s"
  "userId (handleSend cfg s) = userId s"
  "isAuthReady (handleSend cfg s) = isAuthReady s"
  "username (handleSend cfg s) = username s"
  "persistentMessages (handleSend cfg s) = persistentMessages s"
  "liveMessages (handleSend cfg s) = liveMessages s"
  "isConnected (handleSend cfg s) = isConnected s"
  "hasConnectedRef (handleSend cfg s) = hasConnectedRef s"
  "now (handleSend cfg s) = now s"
  "nextTimerId (handleSend cfg s) = nextTimerId s"
  "subscribed (handleSend cfg s) = subscribed s"
  "authListener (handleSend cfg s) = authListener s"
  "console (handleSend cfg s) = console s"
  "connects (trace (handleSend cfg s)) = connects (trace s)"
  by (cases "trim (input s) = [] \<or> username s = []";
      simp add: handleSend_noop handleSend_fields)+

lemmas handle_unfold =
  handle_simps plain_handler_defs handleInputChange_fields handleSend_kept Let_def

lemma handle_kept:
  "db (handle cfg e s) = db s"
  "authListener (handle cfg e s) = authListener s"
  "subscribed (handle cfg e s) = subscribed s"
  "hasConnectedRef (handle cfg e s) = hasConnectedRef s"
  "connects (trace (handle cfg e s)) = connects (trace s)"
  by (cases e; simp add: handle_unfold split: option.splits outcome.splits)+

lemma handle_ready:
  "isAuthReady (handle cfg e s) =
     (isAuthReady s \<or> authListener s \<and> (\<exists>uid. e = AuthStateChanged (Some uid)))"
  by (cases e; simp add: handle_unfold split: option.splits outcome.splits)

lemma handle_username:
  "username s \<noteq> [] \<Longrightarrow> username (handle cfg e s) = username s"
  by (cases e; simp add: handle_unfold split: option.splits outcome.splits)

lemma handle_trace_grows: "\<exists>ds. trace (handle cfg e s) = trace s @ ds"
proof (cases e)
  case Submit
  show ?thesis
    by (cases "trim (input s) = [] \<or> username s = []")
       (simp_all add: Submit handle_simps handleSend_noop handleSend_fields)
qed (simp_all add: handle_unfold split: option.splits outcome.splits)

lemma handle_quiet:
  assumes "\<not> isConnected s" and "timers s = []" and "connects (trace s) = []"
  shows "\<not> isConnected (handle cfg e s)" and "timers (handle cfg e s) = []"
    and "filter store_or_transport (trace (handle cfg e s))
           = filter store_or_transport (trace s)"
  using assms
  by (cases e; simp add: handle_unfold chat_form_enabled_def connection_reportable_def
        connect_issued_connects
        split: option.splits outcome.splits)+

section \<open>The lifecycle invariant\<close>

lemma connects_effects:
  "connects (trace (render cfg p s)) =
     connects (trace s) @
     (if isAuthReady s \<and> username s \<noteq> [] \<and> \<not> hasConnectedRef s then [username s] else [])"
  by (simp add: render_fields)

lemma lifecycle_mount: "lifecycle_inv cfg (mount cfg)"
  by (simp add: lifecycle_inv_def mount_def render_fields init_effect_def initial_def Let_def
      split: option.splits)

lemma lifecycle_step:
  assumes inv: "lifecycle_inv cfg s"
  shows "lifecycle_inv cfg (step cfg e s)"
proof -
  define h where "h = handle cfg e s"
  have kept: "db h = db s" "authListener h = authListener s" "subscribed h = subscribed s"
    "hasConnectedRef h = hasConnectedRef s" "connects (trace h) = connects (trace s)"
    by (simp_all add: h_def handle_kept)
  have db_s: "isAuthReady s \<or> authListener s \<Longrightarrow> db s \<noteq> None"
    using inv by (auto simp add: lifecycle_inv_def)
  have ready_mono: "isAuthReady s \<Longrightarrow> isAuthReady h"
    by (simp add: h_def handle_ready)
  have ready_from: "isAuthReady h \<Longrightarrow> isAuthReady s \<or> authListener s"
    by (auto simp add: h_def handle_ready)
  have db_h: "isAuthReady h \<Longrightarrow> db h \<noteq> None"
    using ready_from db_s kept(1) by auto
  have sub_s: "subscribed s = isAuthReady s"
    using inv by (simp add: lifecycle_inv_def)
  have flag_s: "hasConnectedRef s = (isAuthReady s \<and> username s \<noteq> [])"
    using inv by (simp add: lifecycle_inv_def)
  have conn_s: "connects (trace s) = (if hasConnectedRef s then [username s] else [])"
    using inv by (simp add: lifecycle_inv_def)
  have name: "username s \<noteq> [] \<Longrightarrow> username h = username s"
    by (simp add: h_def handle_username)
  obtain ds where grows: "trace h = trace s @ ds"
    using handle_trace_grows [of cfg e s] by (auto simp add: h_def)
  have c1: "authListener (render cfg s h) \<longrightarrow> db (render cfg s h) \<noteq> None"
    using db_s kept by (simp add: render_fields)
  have c2: "isAuthReady (render cfg s h) \<longrightarrow> db (render cfg s h) \<noteq> None"
    using db_h by (simp add: render_fields)
  have c3: "subscribed (render cfg s h) = isAuthReady (render cfg s h)"
    using db_h sub_s kept by (auto simp add: render_fields)
  have c4: "isAuthReady (render cfg s h) \<longrightarrow>
      Subscribe (chat_query cfg) \<in> set (trace (render cfg s h))"
  proof (cases "isAuthReady s")
    case True
    then have "Subscribe (chat_query cfg) \<in> set (trace s)"
      using inv by (simp add: lifecycle_inv_def)
    then show ?thesis
      by (simp add: render_fields grows)
  next
    case False
    then show ?thesis
      using db_h by (auto simp add: render_fields)
  qed
  have c5: "\<not> isAuthReady (render cfg s h) \<longrightarrow>
      filter store_or_transport (trace (render cfg s h)) = [] \<and>
      \<not> isConnected (render cfg s h) \<and> timers (render cfg s h) = []"
  proof
    assume "\<not> isAuthReady (render cfg s h)"
    then have nh: "\<not> isAuthReady h"
      by (simp add: render_fields)
    then have ns: "\<not> isAuthReady s"
      using ready_mono by blast
    then have q: "filter store_or_transport (trace s) = []" "\<not> isConnected s" "timers s = []"
      using inv by (simp_all add: lifecycle_inv_def)
    have "connects (trace s) = []"
      using q(1) by (rule connects_ops)
    then have "\<not> isConnected h" "timers h = []"
      "filter store_or_transport (trace h) = filter store_or_transport (trace s)"
      using handle_quiet [of s cfg e] q by (simp_all add: h_def)
    then show "filter store_or_transport (trace (render cfg s h)) = [] \<and>
      \<not> isConnected (render cfg s h) \<and> timers (render cfg s h) = []"
      using nh ns q kept(1) by (simp add: render_fields)
  qed
  have c6: "hasConnectedRef (render cfg s h) =
      (isAuthReady (render cfg s h) \<and> username (render cfg s h) \<noteq> [])"
    using flag_s kept(4) ready_mono name by (auto simp add: render_fields)
  have c7: "connects (trace (render cfg s h)) =
      (if hasConnectedRef (render cfg s h) then [username (render cfg s h)] else [])"
  proof (cases "hasConnectedRef s")
    case True
    then have "username s \<noteq> []"
      using flag_s by simp
    then show ?thesis
      using True conn_s kept name by (simp add: connects_effects) (simp add: render_fields)
  next
    case False
    then show ?thesis
      using conn_s kept by (simp add: connects_effects) (simp add: render_fields)
  qed
  show ?thesis
    unfolding step_def lifecycle_inv_def h_def [symmetric]
    using c1 c2 c3 c4 c5 c6 c7 by blast
qed

lemma lifecycle_run: "lifecycle_inv cfg s \<Longrightarrow> lifecycle_inv cfg (run cfg es s)"
  by (induction es arbitrary: s) (simp_all add: lifecycle_step)

lemma lifecycle_reachable: "lifecycle_inv cfg (run cfg es (mount cfg))"
  by (simp add: lifecycle_run lifecycle_mount)

lemma step_guard_holds:
  assumes "hasConnectedRef s"
  shows "hasConnectedRef (step cfg e s)"
    and "connects (trace (step cfg e s)) = connects (trace s)"
  using assms by (simp_all add: step_def connects_effects handle_kept) (simp add: render_fields handle_kept)

lemma run_guard_holds:
  "hasConnectedRef s \<Longrightarrow> connects (trace (run cfg es s)) = connects (trace s)"
  by (induction es arbitrary: s) (simp_all add: step_guard_holds)

lemma step_ready_mono: "isAuthReady s \<Longrightarrow> isAuthReady (step cfg e s)"
  by (simp add: step_def render_fields handle_ready)

lemma run_ready_mono: "isAuthReady s \<Longrightarrow> isAuthReady (run cfg es s)"
  by (induction es arbitrary: s) (simp_all add: step_ready_mono)

section \<open>At most one connection attempt\<close>

text \<open>
  Claim C4. Whatever events arrive after mounting, readiness and username updates
  among them, the trace holds at most one \<open>connect\<close>. Once the flag is set, no history
  adds another one, and running the connection effect twice issues what running it once
  issues.
\<close>

theorem connect_at_most_once:
  "length (connects (trace (run cfg es (mount cfg)))) \<le> 1 \<and>
   (hasConnectedRef s \<longrightarrow> connects (trace (run cfg es s)) = connects (trace s)) \<and>
   connects (trace (socket_connection_effect (socket_connection_effect s)))
     = connects (trace (socket_connection_effect s))"
proof -
  have "lifecycle_inv cfg (run cfg es (mount cfg))"
    by (rule lifecycle_reachable)
  then have "length (connects (trace (run cfg es (mount cfg)))) \<le> 1"
    by (simp add: lifecycle_inv_def)
  then show ?thesis
    by (auto simp add: run_guard_holds socket_connection_effect_fields)
qed

text \<open>
  The auth listener fires three times and the username form is submitted twice: one
  attempt, for the first username.
\<close>

theorem connect_at_most_once_witness:
  "connects (trace (run cfg_prod
      [AuthStateChanged (Some ''u1''), SubmitUsername ''alice'', AuthStateChanged (Some ''u1''),
       SubmitUsername ''bob'', AuthStateChanged (Some ''u2''), ConnectionChange False]
      (mount cfg_prod))) = [''alice''] \<and>
   connects (trace (run cfg_prod
      [AuthStateChanged (Some ''u1''), SubmitUsername ''bob'']
      (socket_connection_effect (initial\<lparr>isAuthReady := True, username := ''alice''\<rparr>))))
     = [''alice'']"
  using connect_at_most_once
    [where cfg = cfg_prod
       and es = "[AuthStateChanged (Some ''u1''), SubmitUsername ''alice'',
                  AuthStateChanged (Some ''u1''), SubmitUsername ''bob'',
                  AuthStateChanged (Some ''u2''), ConnectionChange False]"
       and s = initial]
    connect_at_most_once
    [where cfg = cfg_prod
       and es = "[AuthStateChanged (Some ''u1''), SubmitUsername ''bob'']"
       and s = "socket_connection_effect (initial\<lparr>isAuthReady := True, username := ''alice''\<rparr>)"]
  by (simp add: run_defs)

section \<open>Nothing happens before identity is ready\<close>

text \<open>
  Claim C9. In a state reached from mounting in which identity is not ready, no command
  has gone to the store or to the transport. Once identity is ready it stays ready, the
  history listener is subscribed and its \<open>subscribe\<close> is in the trace, whether or not a
  username is chosen or the transport is connected. The connection attempts are the
  chosen username when identity is ready and a username is chosen, and none otherwise.
\<close>

theorem nothing_before_identity_is_ready:
  "(\<not> isAuthReady (run cfg es (mount cfg)) \<longrightarrow>
      filter store_or_transport (trace (run cfg es (mount cfg))) = []) \<and>
   (isAuthReady (run cfg es (mount cfg)) \<longrightarrow>
      isAuthReady (run cfg (es @ es') (mount cfg)) \<and>
      subscribed (run cfg es (mount cfg)) \<and>
      Subscribe (chat_query cfg) \<in> set (trace (run cfg es (mount cfg)))) \<and>
   connects (trace (run cfg es (mount cfg))) =
     (if isAuthReady (run cfg es (mount cfg)) \<and> username (run cfg es (mount cfg)) \<noteq> []
      then [username (run cfg es (mount cfg))] else [])"
proof -
  have "lifecycle_inv cfg (run cfg es (mount cfg))"
    by (rule lifecycle_reachable)
  then show ?thesis
    by (simp add: lifecycle_inv_def run_append run_ready_mono)
qed

text \<open>
  Before the auth listener fires, a username, a connection report, typing, a submit and
  time passing leave only the sign-in in the trace. When it fires the subscription
  starts, with no username and no connection yet; the username then starts the
  connection attempt.
\<close>

theorem nothing_before_identity_is_ready_witness:
  "trace (run cfg_prod
      [SubmitUsername ''alice'', ConnectionChange True, InputChange ''hi'', Submit, Elapse 3000]
      (mount cfg_prod)) = [SignInAnonymously] \<and>
   trace (run cfg_prod [AuthStateChanged (Some ''u1'')] (mount cfg_prod))
     = [SignInAnonymously, Subscribe (chat_query cfg_prod)] \<and>
   trace (run cfg_prod [AuthStateChanged (Some ''u1''), SubmitUsername ''alice''] (mount cfg_prod))
     = [SignInAnonymously, Subscribe (chat_query cfg_prod), Connect ''alice'']"
  using nothing_before_identity_is_ready
    [where cfg = cfg_prod and es' = "[]" and es =
      "[SubmitUsername ''alice'', ConnectionChange True, InputChange ''hi'', Submit, Elapse 3000]"]
    nothing_before_identity_is_ready
    [where cfg = cfg_prod and es' = "[]" and es = "[AuthStateChanged (Some ''u1'')]"]
    nothing_before_identity_is_ready
    [where cfg = cfg_prod and es' = "[]"
       and es = "[AuthStateChanged (Some ''u1''), SubmitUsername ''alice'']"]
  by (simp add: run_defs)

section \<open>The ref and the timer table agree\<close>

lemma timer_ok_mount: "timer_ok (mount cfg)"
  by (simp add: timer_ok_def mount_def render_fields init_effect_def initial_def Let_def
      split: option.splits)

lemma timer_ok_render: "timer_ok (render cfg p s) = timer_ok s"
  by (simp add: timer_ok_def render_fields cong: option.case_cong)

lemma timer_ok_handleInputChange: "timer_ok s \<Longrightarrow> timer_ok (handleInputChange t s)"
  by (auto simp add: timer_ok_def handleInputChange_fields map_eq_Cons_conv split: option.splits)

lemma timers_handleInputChange:
  "timer_ok s \<Longrightarrow> timers (handleInputChange t s) = [(nextTimerId s, now s + 2000)]"
  by (auto simp add: timer_ok_def handleInputChange_fields map_eq_Cons_conv split: option.splits)

lemma timer_ok_handleSend: "timer_ok s \<Longrightarrow> timer_ok (handleSend cfg s)"
proof (cases "trim (input s) = [] \<or> username s = []")
  case True
  assume "timer_ok s"
  with True show ?thesis
    by (simp add: handleSend_noop)
next
  case False
  assume "timer_ok s"
  with False show ?thesis
    by (auto simp add: timer_ok_def handleSend_fields map_eq_Cons_conv split: option.splits)
qed

lemma timer_ok_advance: "timer_ok s \<Longrightarrow> timer_ok (advance d s)"
  by (auto simp add: timer_ok_def map_eq_Cons_conv split: option.splits if_splits)

lemma timer_ok_handle: "timer_ok s \<Longrightarrow> timer_ok (handle cfg e s)"
proof (cases e)
  case (InputChange t)
  assume "timer_ok s"
  then show ?thesis
    by (simp add: InputChange handle_simps timer_ok_handleInputChange)
next
  case Submit
  assume "timer_ok s"
  then show ?thesis
    by (simp add: Submit handle_simps timer_ok_handleSend)
next
  case (Elapse d)
  assume "timer_ok s"
  then show ?thesis
    by (simp add: Elapse handle_simps timer_ok_advance)
qed (simp_all add: timer_ok_def handle_simps plain_handler_defs Let_def
      split: option.splits outcome.splits)

lemma timer_ok_step: "timer_ok s \<Longrightarrow> timer_ok (step cfg e s)"
  by (simp add: step_def timer_ok_render timer_ok_handle)

lemma timer_ok_run: "timer_ok s \<Longrightarrow> timer_ok (run cfg es s)"
  by (induction es arbitrary: s) (simp_all add: timer_ok_step)

lemma timer_ok_idle: "timer_ok s \<Longrightarrow> (typingTimeoutRef s = None) = (timers s = [])"
  by (auto simp add: timer_ok_def split: option.splits)

section \<open>What an input change does\<close>

text \<open>
  Claim C10. An input change appends ``start typing'' to the trace exactly when the new
  text is not empty and the ref is null, and appends nothing else, so never ``stop
  typing''. In a state where the ref and the timer table agree, as in every state reached
  from mounting, the ref is null exactly when no timer is pending; after the change,
  empty text or not, the only pending timer is a new one due 2000 ms later, held by the
  ref. Before 2000 ms have passed nothing is emitted; when they have, ``stop typing'' is
  emitted, the table is empty and the ref is null.
\<close>

theorem input_change_typing:
  "timer_ok (run cfg es (mount cfg)) \<and>
   trace (handleInputChange t s) =
     trace s @ (if t \<noteq> [] \<and> typingTimeoutRef s = None then [SetTyping True] else []) \<and>
   (timer_ok s \<longrightarrow>
      (typingTimeoutRef s = None) = (timers s = []) \<and>
      timers (handleInputChange t s) = [(nextTimerId s, now s + 2000)] \<and>
      typingTimeoutRef (handleInputChange t s) = Some (nextTimerId s) \<and>
      timer_ok (handleInputChange t s) \<and>
      (d < 2000 \<longrightarrow>
         trace (advance d (handleInputChange t s)) = trace (handleInputChange t s) \<and>
         timers (advance d (handleInputChange t s)) = timers (handleInputChange t s)) \<and>
      (2000 \<le> d \<longrightarrow>
         trace (advance d (handleInputChange t s))
           = trace (handleInputChange t s) @ [SetTyping False] \<and>
         timers (advance d (handleInputChange t s)) = [] \<and>
         typingTimeoutRef (advance d (handleInputChange t s)) = None))"
proof -
  have a: "timer_ok (run cfg es (mount cfg))"
    by (simp add: timer_ok_run timer_ok_mount)
  have b: "trace (handleInputChange t s) =
     trace s @ (if t \<noteq> [] \<and> typingTimeoutRef s = None then [SetTyping True] else [])"
    by (simp add: handleInputChange_fields)
  have c: "timer_ok s \<Longrightarrow> timers (handleInputChange t s) = [(nextTimerId s, now s + 2000)]"
    by (rule timers_handleInputChange)
  have n: "now (handleInputChange t s) = now s"
    by (simp add: handleInputChange_fields)
  have e: "timer_ok s \<Longrightarrow> d < 2000 \<Longrightarrow>
         trace (advance d (handleInputChange t s)) = trace (handleInputChange t s) \<and>
         timers (advance d (handleInputChange t s)) = timers (handleInputChange t s)"
    by (simp add: c n)
  have f: "timer_ok s \<Longrightarrow> 2000 \<le> d \<Longrightarrow>
         trace (advance d (handleInputChange t s))
           = trace (handleInputChange t s) @ [SetTyping False] \<and>
         timers (advance d (handleInputChange t s)) = [] \<and>
         typingTimeoutRef (advance d (handleInputChange t s)) = None"
    by (simp add: c n)
  show ?thesis
    using a b c e f timer_ok_idle [of s] timer_ok_handleInputChange [of s t]
    by (simp add: handleInputChange_fields)
qed

text \<open>
  Alice types ``h'' and then clears the field: one ``start typing'', a second timer
  (handle 2) replacing the first, and ``stop typing'' 2000 ms after the clearing.
\<close>

theorem input_change_typing_witness:
  "trace (handleInputChange ''h''
      (run cfg_prod [AuthStateChanged (Some ''u1''), SubmitUsername ''alice'',
         ConnectionChange True] (mount cfg_prod)))
     = [SignInAnonymously, Subscribe (chat_query cfg_prod), Connect ''alice'', SetTyping True] \<and>
   trace (advance 2000 (handleInputChange []
      (handleInputChange ''h''
        (run cfg_prod [AuthStateChanged (Some ''u1''), SubmitUsername ''alice'',
           ConnectionChange True] (mount cfg_prod)))))
     = [SignInAnonymously, Subscribe (chat_query cfg_prod), Connect ''alice'', SetTyping True,
        SetTyping False] \<and>
   timers (handleInputChange []
      (handleInputChange ''h''
        (run cfg_prod [AuthStateChanged (Some ''u1''), SubmitUsername ''alice'',
           ConnectionChange True] (mount cfg_prod))))
     = [(2, 2000)]"
  using input_change_typing
    [where cfg = cfg_prod and es = "[]" and t = "''h''" and d = 0 and s =
      "run cfg_prod [AuthStateChanged (Some ''u1''), SubmitUsername ''alice'',
         ConnectionChange True] (mount cfg_prod)"]
    input_change_typing
    [where cfg = cfg_prod and es = "[]" and t = "[]" and d = 2000 and s =
      "handleInputChange ''h''
        (run cfg_prod [AuthStateChanged (Some ''u1''), SubmitUsername ''alice'',
           ConnectionChange True] (mount cfg_prod))"]
  by (simp add: run_defs timer_ok_def)

section \<open>A burst of keystrokes\<close>

text \<open>
  From an idle state with the form enabled, a burst of input changes less than 2000 ms
  apart, ended by 2000 ms of quiet or by a send of text that is not blank, emits ``stop
  typing'' once, and before it ``start typing'' once if the first text of the burst is
  not empty, and not at all if it is empty.
\<close>

lemma typing_cmds_replicate [simp]:
  "typing_cmds (replicate n (SetTyping b)) = replicate n b"
  by (induction n) simp_all

lemma typing_cmds_render: "typing_cmds (trace (render cfg p s)) = typing_cmds (trace s)"
  by (simp add: render_fields)

lemma chat_form_render: "chat_form_enabled (render cfg p s) = chat_form_enabled s"
  by (simp add: chat_form_enabled_def render_fields)

lemma typing_armed_render: "typing_armed (render cfg p s) = typing_armed s"
  by (simp add: typing_armed_def chat_form_enabled_def render_fields cong: option.case_cong)

lemma first_keystroke:
  assumes "chat_form_enabled s" and "timer_ok s" and "typingTimeoutRef s = None"
  shows "typing_armed (step cfg (InputChange t) s)"
    and "typing_cmds (trace (step cfg (InputChange t) s))
           = typing_cmds (trace s) @ (if t \<noteq> [] then [True] else [])"
  using assms
  by (simp_all add: step_def typing_armed_render typing_cmds_render handle_simps)
     (simp_all add: typing_armed_def chat_form_enabled_def handleInputChange_fields
        timer_ok_def)

lemma next_keystroke:
  assumes "typing_armed s" and "d < 2000"
  shows "typing_armed (step cfg (InputChange t) (step cfg (Elapse d) s))"
    and "typing_cmds (trace (step cfg (InputChange t) (step cfg (Elapse d) s)))
           = typing_cmds (trace s)"
proof -
  obtain h where h: "typingTimeoutRef s = Some h" "timers s = [(h, now s + 2000)]"
    and en: "chat_form_enabled s"
    using assms(1) by (auto simp add: typing_armed_def split: option.splits)
  let ?s1 = "step cfg (Elapse d) s"
  have s1: "typingTimeoutRef ?s1 = Some h" "timers ?s1 = [(h, now s + 2000)]"
    "chat_form_enabled ?s1" "typing_cmds (trace ?s1) = typing_cmds (trace s)"
    "now ?s1 = now s + d"
    using h en assms(2)
    by (simp_all add: step_def handle_simps render_fields chat_form_enabled_def)
  have ok: "timer_ok ?s1"
    using s1 by (simp add: timer_ok_def)
  show "typing_armed (step cfg (InputChange t) ?s1)"
    using s1 ok
    by (simp add: step_def typing_armed_render handle_simps)
       (simp add: typing_armed_def chat_form_enabled_def handleInputChange_fields
          timers_handleInputChange)
  show "typing_cmds (trace (step cfg (InputChange t) ?s1)) = typing_cmds (trace s)"
    using s1
    by (simp add: step_def typing_cmds_render handle_simps handleInputChange_fields)
qed

lemma further_keystrokes:
  assumes "typing_armed s" and "\<forall>(d, t) \<in> set rest. d < 2000"
  shows "typing_armed (run cfg (concat (map (\<lambda>(d, t). [Elapse d, InputChange t]) rest)) s) \<and>
    typing_cmds (trace (run cfg (concat (map (\<lambda>(d, t). [Elapse d, InputChange t]) rest)) s))
      = typing_cmds (trace s)"
  using assms
proof (induction rest arbitrary: s)
  case Nil
  then show ?case by simp
next
  case (Cons p rest)
  obtain d t where p: "p = (d, t)"
    by (cases p)
  have d: "d < 2000"
    using Cons.prems(2) p by simp
  let ?s2 = "step cfg (InputChange t) (step cfg (Elapse d) s)"
  have "typing_armed ?s2" "typing_cmds (trace ?s2) = typing_cmds (trace s)"
    using next_keystroke [OF Cons.prems(1) d] by simp_all
  moreover have "\<forall>(d, t) \<in> set rest. d < 2000"
    using Cons.prems(2) by simp
  ultimately show ?case
    using Cons.IH [of ?s2] by (simp add: p)
qed

lemma quiet_period:
  assumes "typing_armed s" and "2000 \<le> d"
  shows "typing_cmds (trace (step cfg (Elapse d) s)) = typing_cmds (trace s) @ [False]"
    and "typingTimeoutRef (step cfg (Elapse d) s) = None"
    and "timers (step cfg (Elapse d) s) = []"
proof -
  obtain h where h: "typingTimeoutRef s = Some h" "timers s = [(h, now s + 2000)]"
    using assms(1) by (auto simp add: typing_armed_def split: option.splits)
  show "typing_cmds (trace (step cfg (Elapse d) s)) = typing_cmds (trace s) @ [False]"
    and "typingTimeoutRef (step cfg (Elapse d) s) = None"
    and "timers (step cfg (Elapse d) s) = []"
    using h assms(2) by (simp_all add: step_def handle_simps render_fields)
qed

lemma send_ends_typing:
  assumes "typing_armed s" and "trim (input s) \<noteq> []"
  shows "typing_cmds (trace (step cfg Submit s)) = typing_cmds (trace s) @ [False]"
    and "typingTimeoutRef (step cfg Submit s) = None"
    and "timers (step cfg Submit s) = []"
proof -
  obtain h where h: "typingTimeoutRef s = Some h" "timers s = [(h, now s + 2000)]"
    and en: "chat_form_enabled s"
    using assms(1) by (auto simp add: typing_armed_def split: option.splits)
  have u: "username s \<noteq> []"
    using en by (simp add: chat_form_enabled_def)
  show "typing_cmds (trace (step cfg Submit s)) = typing_cmds (trace s) @ [False]"
    and "typingTimeoutRef (step cfg Submit s) = None"
    and "timers (step cfg Submit s) = []"
    using h en u assms(2)
    by (simp_all add: step_def handle_simps render_fields handleSend_fields)
qed

lemma burst_then_quiet:
  assumes "chat_form_enabled s" and "timer_ok s" and "typingTimeoutRef s = None"
    and "\<forall>(d, t) \<in> set rest. d < 2000" and "2000 \<le> d"
  shows "typing_cmds (trace (run cfg (keystrokes t0 rest @ [Elapse d]) s))
    = typing_cmds (trace s) @ (if t0 \<noteq> [] then [True] else []) @ [False]"
proof -
  let ?s1 = "step cfg (InputChange t0) s"
  let ?s2 = "run cfg (concat (map (\<lambda>(d, t). [Elapse d, InputChange t]) rest)) ?s1"
  have 1: "typing_armed ?s1"
    "typing_cmds (trace ?s1) = typing_cmds (trace s) @ (if t0 \<noteq> [] then [True] else [])"
    using first_keystroke [OF assms(1,2,3)] by simp_all
  have 2: "typing_armed ?s2" "typing_cmds (trace ?s2) = typing_cmds (trace ?s1)"
    using further_keystrokes [OF 1(1) assms(4)] by simp_all
  have "typing_cmds (trace (step cfg (Elapse d) ?s2)) = typing_cmds (trace ?s2) @ [False]"
    using quiet_period(1) [OF 2(1) assms(5)] .
  then show ?thesis
    using 1(2) 2(2) by (simp add: keystrokes_def run_append)
qed

lemma burst_then_send:
  assumes "chat_form_enabled s" and "timer_ok s" and "typingTimeoutRef s = None"
    and "\<forall>(d, t) \<in> set rest. d < 2000"
    and "trim (input (run cfg (keystrokes t0 rest) s)) \<noteq> []"
  shows "typing_cmds (trace (run cfg (keystrokes t0 rest @ [Submit]) s))
    = typing_cmds (trace s) @ (if t0 \<noteq> [] then [True] else []) @ [False]"
proof -
  let ?s1 = "step cfg (InputChange t0) s"
  let ?s2 = "run cfg (concat (map (\<lambda>(d, t). [Elapse d, InputChange t]) rest)) ?s1"
  have 1: "typing_armed ?s1"
    "typing_cmds (trace ?s1) = typing_cmds (trace s) @ (if t0 \<noteq> [] then [True] else [])"
    using first_keystroke [OF assms(1,2,3)] by simp_all
  have 2: "typing_armed ?s2" "typing_cmds (trace ?s2) = typing_cmds (trace ?s1)"
    using further_keystrokes [OF 1(1) assms(4)] by simp_all
  have 3: "trim (input ?s2) \<noteq> []"
    using assms(5) by (simp add: keystrokes_def)
  have "typing_cmds (trace (step cfg Submit ?s2)) = typing_cmds (trace ?s2) @ [False]"
    using send_ends_typing(1) [OF 2(1) 3] .
  then show ?thesis
    using 1(2) 2(2) by (simp add: keystrokes_def run_append)
qed

text \<open>
  Claim C2. The claim asks for one ``start typing'' on the first non-empty input change
  since idle. Alice types ``a'' and pauses: start, stop, and the debouncer is idle with
  ``a'' in the field. She clears the field and types ``b'' 100 ms later, then pauses. The
  clearing arms the timer without a start, so ``b'' finds a timer pending: the burst
  emits a stop and no start.
\<close>

theorem burst_after_clearing_emits_no_start:
  "typingTimeoutRef
     (run cfg_prod
        [AuthStateChanged (Some ''u1''), SubmitUsername ''alice'', ConnectionChange True,
         InputChange ''a'', Elapse 2000]
        (mount cfg_prod)) = None \<and>
   typing_cmds (trace
     (run cfg_prod
        [AuthStateChanged (Some ''u1''), SubmitUsername ''alice'', ConnectionChange True,
         InputChange ''a'', Elapse 2000]
        (mount cfg_prod))) = [True, False] \<and>
   typing_cmds (trace
     (run cfg_prod
        ([AuthStateChanged (Some ''u1''), SubmitUsername ''alice'', ConnectionChange True,
          InputChange ''a'', Elapse 2000]
         @ keystrokes [] [(100, ''b'')] @ [Elapse 2000])
        (mount cfg_prod))) = [True, False, False]"
  by (simp add: run_defs keystrokes_def)

section \<open>Display identity\<close>

lemma keys_nth:
  "p < length (allMessages s) \<Longrightarrow> keys s ! p = message_key (allMessages s ! p) p"
  by (simp add: keys_def nth_enumerate_eq)

lemma live_in_view:
  "j < length (liveMessages s) \<Longrightarrow> allMessages s ! live_position s j = liveMessages s ! j"
  by (simp add: allMessages_def live_position_def nth_append)

lemma live_position_in_view:
  "j < length (liveMessages s) \<Longrightarrow> live_position s j < length (allMessages s)"
  by (simp add: allMessages_def live_position_def)

lemma live_kept:
  "j < length (liveMessages s) \<Longrightarrow>
     j < length (liveMessages (run cfg es s)) \<and>
     liveMessages (run cfg es s) ! j = liveMessages s ! j"
  by (simp add: run_live nth_append)

lemma message_key_id: "msg_id m = Some i \<Longrightarrow> i \<noteq> [] \<Longrightarrow> message_key m p = KeyId i"
  by (simp add: message_key_def)

lemma message_key_position:
  "msg_id m = None \<or> msg_id m = Some [] \<Longrightarrow> message_key m p = KeyIndex p"
  by (auto simp add: message_key_def)

lemma durable_keys:
  assumes "\<forall>d \<in> set docs. doc_id d \<noteq> []"
  shows "map (\<lambda>(p, m). message_key m p) (enumerate n (map doc_message docs))
    = map (\<lambda>d. KeyId (doc_id d)) docs"
  using assms
  by (induction docs arbitrary: n) (simp_all add: message_key_def doc_message_def)

lemma live_key:
  assumes "j < length (liveMessages s)"
  shows "keys s ! live_position s j = message_key (liveMessages s ! j) (live_position s j)"
  using assms by (simp add: keys_nth live_position_in_view live_in_view)

lemma durable_keys_later:
  assumes "latest_snapshot es = Some docs" and "\<forall>d \<in> set docs. doc_id d \<noteq> []"
  shows "persistentMessages (run cfg es s) = rev (map doc_message docs)"
    and "take (length docs) (keys (run cfg es s)) = map (\<lambda>d. KeyId (doc_id d)) (rev docs)"
proof -
  show p: "persistentMessages (run cfg es s) = rev (map doc_message docs)"
    using assms(1) by (simp add: run_persistent)
  have "\<forall>d \<in> set (rev docs). doc_id d \<noteq> []"
    using assms(2) by simp
  then have "map (\<lambda>(p, m). message_key m p) (enumerate 0 (map doc_message (rev docs)))
      = map (\<lambda>d. KeyId (doc_id d)) (rev docs)"
    by (rule durable_keys)
  then show "take (length docs) (keys (run cfg es s))
      = map (\<lambda>d. KeyId (doc_id d)) (rev docs)"
    by (simp add: keys_def allMessages_def p enumerate_append_eq take_map rev_map)
qed

text \<open>
  Claim C3, as stated, fails. Alice has joined and the view shows one live message
  without id, a system notice: it is keyed by its index, 0. A snapshot then brings one
  document; the same notice is now second in the view and keyed by index 1.
\<close>

theorem id_less_live_message_moves:
  "username (run cfg_local
      [SubmitUsername ''alice'', ConnectionChange True,
       LiveMessage (text_msg None ''System'' ''bob joined'' 5)]
      (mount cfg_local)) = ''alice'' \<and>
   allMessages (run cfg_local
      [SubmitUsername ''alice'', ConnectionChange True,
       LiveMessage (text_msg None ''System'' ''bob joined'' 5)]
      (mount cfg_local)) = [text_msg None ''System'' ''bob joined'' 5] \<and>
   keys (run cfg_local
      [SubmitUsername ''alice'', ConnectionChange True,
       LiveMessage (text_msg None ''System'' ''bob joined'' 5)]
      (mount cfg_local)) = [KeyIndex 0] \<and>
   allMessages (run cfg_local
      [SubmitUsername ''alice'', ConnectionChange True,
       LiveMessage (text_msg None ''System'' ''bob joined'' 5),
       Snapshot [stored ''d1'' ''ann'' ''old'' 10]]
      (mount cfg_local))
     = [text_msg (Some ''d1'') ''ann'' ''old'' 10, text_msg None ''System'' ''bob joined'' 5] \<and>
   keys (run cfg_local
      [SubmitUsername ''alice'', ConnectionChange True,
       LiveMessage (text_msg None ''System'' ''bob joined'' 5),
       Snapshot [stored ''d1'' ''ann'' ''old'' 10]]
      (mount cfg_local)) = [KeyId ''d1'', KeyIndex 1]"
  by (simp add: run_defs keys_def allMessages_def message_key_def doc_message_def stored_def
      text_msg_def)

text \<open>
  Claim C3, amended. Take the \<open>j\<close>-th live message of a state and any history after it.
  The message is still the \<open>j\<close>-th live message, shown after the durable messages. If it
  has a non-empty id, that id is its key before and after. If it has none, its key is
  its index, the number of durable messages plus \<open>j\<close>, before and after, so the key is
  the same exactly when the durable list has the length it had, as under live appends.
  Any message of a view that has a non-empty id is keyed by it, wherever it stands. After
  a history whose last snapshot brought documents with non-empty ids, the durable part
  of the view is those documents, oldest first, keyed by their ids, whatever else
  happened since the snapshot.
\<close>

theorem display_identity:
  "(j < length (liveMessages s) \<longrightarrow>
      allMessages (run cfg es s) ! live_position (run cfg es s) j
        = allMessages s ! live_position s j \<and>
      keys (run cfg es s) ! live_position (run cfg es s) j
        = message_key (liveMessages s ! j) (live_position (run cfg es s) j) \<and>
      (\<forall>i. msg_id (liveMessages s ! j) = Some i \<and> i \<noteq> [] \<longrightarrow>
           keys (run cfg es s) ! live_position (run cfg es s) j = KeyId i \<and>
           keys s ! live_position s j = KeyId i) \<and>
      (msg_id (liveMessages s ! j) = None \<or> msg_id (liveMessages s ! j) = Some [] \<longrightarrow>
           keys s ! live_position s j = KeyIndex (length (persistentMessages s) + j) \<and>
           keys (run cfg es s) ! live_position (run cfg es s) j
             = KeyIndex (length (persistentMessages (run cfg es s)) + j) \<and>
           (keys (run cfg es s) ! live_position (run cfg es s) j = keys s ! live_position s j)
             = (length (persistentMessages (run cfg es s)) = length (persistentMessages s))) \<and>
      (length (persistentMessages (run cfg es s)) = length (persistentMessages s) \<longrightarrow>
           keys (run cfg es s) ! live_position (run cfg es s) j = keys s ! live_position s j)) \<and>
   (p < length (allMessages s) \<and> msg_id (allMessages s ! p) = Some a \<and> a \<noteq> [] \<longrightarrow>
      keys s ! p = KeyId a) \<and>
   (latest_snapshot es = Some docs \<and> (\<forall>d \<in> set docs. doc_id d \<noteq> []) \<longrightarrow>
      persistentMessages (run cfg es s) = rev (map doc_message docs) \<and>
      take (length docs) (keys (run cfg es s)) = map (\<lambda>d. KeyId (doc_id d)) (rev docs)) \<and>
   ((\<forall>d \<in> set docs. doc_id d \<noteq> []) \<longrightarrow>
      take (length docs) (keys (step cfg (Snapshot docs) s))
        = map (\<lambda>d. KeyId (doc_id d)) (rev docs))"
proof -
  let ?s' = "run cfg es s"
  let ?m = "liveMessages s ! j"
  have live: "allMessages ?s' ! live_position ?s' j = allMessages s ! live_position s j"
    "keys ?s' ! live_position ?s' j = message_key ?m (live_position ?s' j)"
    "keys s ! live_position s j = message_key ?m (live_position s j)"
    if j: "j < length (liveMessages s)"
  proof -
    have k: "j < length (liveMessages ?s')" "liveMessages ?s' ! j = ?m"
      using live_kept [OF j, of cfg es] by simp_all
    show "allMessages ?s' ! live_position ?s' j = allMessages s ! live_position s j"
      using j k by (simp add: live_in_view)
    show "keys ?s' ! live_position ?s' j = message_key ?m (live_position ?s' j)"
      using live_key [OF k(1)] k(2) by simp
    show "keys s ! live_position s j = message_key ?m (live_position s j)"
      using j by (rule live_key)
  qed
  have with_id: "keys ?s' ! live_position ?s' j = KeyId i \<and> keys s ! live_position s j = KeyId i"
    if "j < length (liveMessages s)" and "msg_id ?m = Some i" and "i \<noteq> []" for i
    using live(2,3) [OF that(1)] that(2,3) by (simp add: message_key_id)
  have without_id:
    "keys s ! live_position s j = KeyIndex (length (persistentMessages s) + j)"
    "keys ?s' ! live_position ?s' j = KeyIndex (length (persistentMessages ?s') + j)"
    if "j < length (liveMessages s)" and "msg_id ?m = None \<or> msg_id ?m = Some []"
    using live(2,3) [OF that(1)] message_key_position [OF that(2)]
    by (simp_all add: live_position_def)
  have same: "keys ?s' ! live_position ?s' j = keys s ! live_position s j"
    if "j < length (liveMessages s)"
      and "length (persistentMessages ?s') = length (persistentMessages s)"
    using live(2,3) [OF that(1)] that(2) by (simp add: live_position_def)
  have anywhere: "keys s ! p = KeyId a"
    if "p < length (allMessages s)" and "msg_id (allMessages s ! p) = Some a" and "a \<noteq> []"
    using that by (simp add: keys_nth message_key_id)
  have durable: "take (length docs) (keys (step cfg (Snapshot docs) s))
      = map (\<lambda>d. KeyId (doc_id d)) (rev docs)"
    if ids: "\<forall>d \<in> set docs. doc_id d \<noteq> []"
    using durable_keys_later(2) [of "[Snapshot docs]" docs cfg s] ids by simp
  have c1: "j < length (liveMessages s) \<longrightarrow>
      allMessages ?s' ! live_position ?s' j = allMessages s ! live_position s j \<and>
      keys ?s' ! live_position ?s' j = message_key ?m (live_position ?s' j) \<and>
      (\<forall>i. msg_id ?m = Some i \<and> i \<noteq> [] \<longrightarrow>
           keys ?s' ! live_position ?s' j = KeyId i \<and> keys s ! live_position s j = KeyId i) \<and>
      (msg_id ?m = None \<or> msg_id ?m = Some [] \<longrightarrow>
           keys s ! live_position s j = KeyIndex (length (persistentMessages s) + j) \<and>
           keys ?s' ! live_position ?s' j = KeyIndex (length (persistentMessages ?s') + j) \<and>
           (keys ?s' ! live_position ?s' j = keys s ! live_position s j)
             = (length (persistentMessages ?s') = length (persistentMessages s))) \<and>
      (length (persistentMessages ?s') = length (persistentMessages s) \<longrightarrow>
           keys ?s' ! live_position ?s' j = keys s ! live_position s j)"
  proof
    assume j: "j < length (liveMessages s)"
    have "(keys ?s' ! live_position ?s' j = keys s ! live_position s j)
        = (length (persistentMessages ?s') = length (persistentMessages s))"
      if "msg_id ?m = None \<or> msg_id ?m = Some []"
      using without_id [OF j that] by simp
    then show "allMessages ?s' ! live_position ?s' j = allMessages s ! live_position s j \<and>
      keys ?s' ! live_position ?s' j = message_key ?m (live_position ?s' j) \<and>
      (\<forall>i. msg_id ?m = Some i \<and> i \<noteq> [] \<longrightarrow>
           keys ?s' ! live_position ?s' j = KeyId i \<and> keys s ! live_position s j = KeyId i) \<and>
      (msg_id ?m = None \<or> msg_id ?m = Some [] \<longrightarrow>
           keys s ! live_position s j = KeyIndex (length (persistentMessages s) + j) \<and>
           keys ?s' ! live_position ?s' j = KeyIndex (length (persistentMessages ?s') + j) \<and>
           (keys ?s' ! live_position ?s' j = keys s ! live_position s j)
             = (length (persistentMessages ?s') = length (persistentMessages s))) \<and>
      (length (persistentMessages ?s') = length (persistentMessages s) \<longrightarrow>
           keys ?s' ! live_position ?s' j = keys s ! live_position s j)"
      using live [OF j] with_id [OF j] without_id [OF j] same [OF j] by blast
  qed
  show ?thesis
    using c1 anywhere durable durable_keys_later [of es docs cfg s] by blast
qed

text \<open>
  In the session of the sample data the notice without id is keyed 0 and bob's message
  \<open>m1\<close>. After another live message and a snapshot of one document the notice is keyed
  1 and bob's message still \<open>m1\<close>; after the live message alone the notice is still
  keyed 0. After a snapshot of two documents, a live message and ten milliseconds, the
  first two keys are the document ids, oldest first.
\<close>

theorem display_identity_witness:
  "username chat_open = ''alice'' \<and>
   keys chat_open = [KeyIndex 0, KeyId ''m1''] \<and>
   keys (run cfg_local
      [LiveMessage (text_msg None ''System'' ''ann joined'' 7),
       Snapshot [stored ''d1'' ''ann'' ''old'' 1]] chat_open)
     = [KeyId ''d1'', KeyIndex 1, KeyId ''m1'', KeyIndex 3] \<and>
   keys (run cfg_local [LiveMessage (text_msg None ''System'' ''ann joined'' 7)] chat_open)
     = [KeyIndex 0, KeyId ''m1'', KeyIndex 2] \<and>
   take 2 (keys (run cfg_local
      [Snapshot [stored ''d2'' ''bob'' ''new'' 9, stored ''d1'' ''ann'' ''old'' 1],
       LiveMessage (text_msg None ''System'' ''ann joined'' 7), Elapse 10] chat_open))
     = [KeyId ''d1'', KeyId ''d2'']"
proof -
  let ?a = "[LiveMessage (text_msg None ''System'' ''ann joined'' 7),
       Snapshot [stored ''d1'' ''ann'' ''old'' 1]]"
  let ?b = "[LiveMessage (text_msg None ''System'' ''ann joined'' 7)]"
  let ?d = "[Snapshot [stored ''d2'' ''bob'' ''new'' 9, stored ''d1'' ''ann'' ''old'' 1],
       LiveMessage (text_msg None ''System'' ''ann joined'' 7), Elapse 10]"
  have s: "liveMessages chat_open
      = [text_msg None ''System'' ''bob joined'' 5, text_msg (Some ''m1'') ''bob'' ''hi'' 6]"
    "persistentMessages chat_open = []" "username chat_open = ''alice''"
    by (simp_all add: chat_open_def run_defs)
  have len: "length (persistentMessages (run cfg_local ?a chat_open)) = 1"
    "length (persistentMessages (run cfg_local ?b chat_open)) = length (persistentMessages chat_open)"
    by (simp_all add: run_persistent s del: run.simps)
  have j0: "0 < length (liveMessages chat_open)"
    "msg_id (liveMessages chat_open ! 0) = None \<or> msg_id (liveMessages chat_open ! 0) = Some []"
    by (simp_all add: s text_msg_def)
  have j1: "1 < length (liveMessages chat_open)"
    "msg_id (liveMessages chat_open ! 1) = Some ''m1'' \<and> ''m1'' \<noteq> []"
    by (simp_all add: s text_msg_def)
  have d: "latest_snapshot ?d
      = Some [stored ''d2'' ''bob'' ''new'' 9, stored ''d1'' ''ann'' ''old'' 1] \<and>
    (\<forall>x \<in> set [stored ''d2'' ''bob'' ''new'' 9, stored ''d1'' ''ann'' ''old'' 1].
       doc_id x \<noteq> [])"
    by (simp add: stored_def)
  have before: "keys chat_open ! live_position chat_open 0
      = KeyIndex (length (persistentMessages chat_open) + 0)"
    and after: "keys (run cfg_local ?a chat_open) ! live_position (run cfg_local ?a chat_open) 0
      = KeyIndex (length (persistentMessages (run cfg_local ?a chat_open)) + 0)"
    using display_identity [where s = chat_open and j = 0 and cfg = cfg_local and es = ?a
        and docs = "[]" and p = 0 and a = "[]"] j0
    by blast+
  have kept: "keys (run cfg_local ?b chat_open) ! live_position (run cfg_local ?b chat_open) 0
       = keys chat_open ! live_position chat_open 0"
    using display_identity [where s = chat_open and j = 0 and cfg = cfg_local and es = ?b
        and docs = "[]" and p = 0 and a = "[]"] j0(1) len(2)
    by blast
  have by_id: "keys (run cfg_local ?a chat_open) ! live_position (run cfg_local ?a chat_open) 1
       = KeyId ''m1''"
    using display_identity [where s = chat_open and j = 1 and cfg = cfg_local and es = ?a
        and docs = "[]" and p = 0 and a = "[]"] j1
    by blast
  have durable: "take (length [stored ''d2'' ''bob'' ''new'' 9, stored ''d1'' ''ann'' ''old'' 1])
      (keys (run cfg_local ?d chat_open))
     = map (\<lambda>d. KeyId (doc_id d))
        (rev [stored ''d2'' ''bob'' ''new'' 9, stored ''d1'' ''ann'' ''old'' 1])"
    using display_identity [where s = chat_open and j = 0 and cfg = cfg_local and es = ?d
        and docs = "[stored ''d2'' ''bob'' ''new'' 9, stored ''d1'' ''ann'' ''old'' 1]"
        and p = 0 and a = "[]"] d
    by blast
  have views: "allMessages chat_open
      = [text_msg None ''System'' ''bob joined'' 5, text_msg (Some ''m1'') ''bob'' ''hi'' 6]"
    "allMessages (run cfg_local ?a chat_open)
      = [text_msg (Some ''d1'') ''ann'' ''old'' 1, text_msg None ''System'' ''bob joined'' 5,
         text_msg (Some ''m1'') ''bob'' ''hi'' 6, text_msg None ''System'' ''ann joined'' 7]"
    "allMessages (run cfg_local ?b chat_open)
      = [text_msg None ''System'' ''bob joined'' 5, text_msg (Some ''m1'') ''bob'' ''hi'' 6,
         text_msg None ''System'' ''ann joined'' 7]"
    by (simp_all add: allMessages_def s run_live run_persistent doc_message_def stored_def
        text_msg_def del: run.simps)
  have k: "keys chat_open = [KeyIndex 0, KeyId ''m1'']"
    "keys (run cfg_local ?a chat_open) = [KeyId ''d1'', KeyIndex 1, KeyId ''m1'', KeyIndex 3]"
    "keys (run cfg_local ?b chat_open) = [KeyIndex 0, KeyId ''m1'', KeyIndex 2]"
    unfolding keys_def views by (simp_all add: message_key_def text_msg_def)
  have "take 2 (keys (run cfg_local ?d chat_open)) = [KeyId ''d1'', KeyId ''d2'']"
    using durable by (simp add: stored_def numeral_2_eq_2 del: run.simps)
  then show ?thesis
    using before after kept by_id k s(3) by (simp del: run.simps)
qed

end
